theory Spec2Isabelle
  imports Complex_Main "HOL-Library.Log_Nat"
begin

section \<open>Numeric conventions\<close>

text \<open>
  The program computes on IEEE floating-point numbers (Python floats, NumPy float32 arrays).
  Sample values (waveforms, envelopes, gains, filter coefficients) are idealised to real
  numbers, and their rounding error is not modelled. Sample counts, sample rates and
  event times in microseconds are integers, as in the source.

  A sample count is a float64 result truncated to an integer, and there a rounding error
  in the last place can change the integer. Every float64 product, sum, difference or
  quotient that leads to such a count is therefore rounded as the machine rounds it. A
  time in seconds that a function receives stands for the float64 value it is.
\<close>

datatype py_error = ValueError | IndexError | ZeroDivisionError | UnboundLocalError

text \<open>Python's \<^verbatim>\<open>int(x)\<close> on a float truncates toward zero.\<close>

definition py_int :: "real \<Rightarrow> int" where
  "py_int x = (if 0 \<le> x then \<lfloor>x\<rfloor> else \<lceil>x\<rceil>)"

text \<open>
  Rounding of a real number to an integer, ties to the even neighbour, and \<open>fl64\<close>,
  rounding to the nearest float64: the number is scaled to the grid of its binade (53
  significant bits, and the grid \<open>2\<^sup>-\<^sup>1\<^sup>0\<^sup>7\<^sup>4\<close> of the subnormal numbers below), rounded
  there with ties to even, and scaled back. Overflow to infinity and NaN are not modelled.
\<close>

definition round_even :: "real \<Rightarrow> int" where
  "round_even y =
     (let f = \<lfloor>y\<rfloor>; d = y - of_int f
      in if d < 1/2 then f else if 1/2 < d then f + 1 else if even f then f else f + 1)"

definition min_exp :: nat where
  "min_exp = 1074"

definition fl64 :: "real \<Rightarrow> real" where
  "fl64 x =
     (let k = nat (bitlen \<lfloor>\<bar>x\<bar> * 2 ^ min_exp\<rfloor> - 53)
      in sgn x * (of_int (round_even (\<bar>x\<bar> * 2 ^ min_exp / 2 ^ k)) * 2 ^ k / 2 ^ min_exp))"

text \<open>The float64 operations \<^verbatim>\<open>x * y\<close>, \<^verbatim>\<open>x / y\<close>, \<^verbatim>\<open>x + y\<close> and \<^verbatim>\<open>x - y\<close>.\<close>

definition fmul :: "real \<Rightarrow> real \<Rightarrow> real" where
  "fmul x y = fl64 (x * y)"

definition fdiv :: "real \<Rightarrow> real \<Rightarrow> real" where
  "fdiv x y = fl64 (x / y)"

definition fadd :: "real \<Rightarrow> real \<Rightarrow> real" where
  "fadd x y = fl64 (x + y)"

definition fsub :: "real \<Rightarrow> real \<Rightarrow> real" where
  "fsub x y = fl64 (x - y)"

text \<open>
  \<^verbatim>\<open>np.linspace(start, stop, num, endpoint)\<close>: a negative \<^verbatim>\<open>num\<close> raises
  ValueError; the divisor is \<^verbatim>\<open>num - 1\<close> with the end point and \<^verbatim>\<open>num\<close> without;
  with a zero divisor the single sample is \<^verbatim>\<open>start\<close>.
\<close>

definition linspace :: "real \<Rightarrow> real \<Rightarrow> int \<Rightarrow> bool \<Rightarrow> py_error + real list" where
  "linspace start stop num endpoint =
     (if num < 0 then Inl ValueError
      else
        let n = nat num;
            dv = (if endpoint then n - 1 else n);
            delta = stop - start
        in Inr (map (\<lambda>i. if dv > 0 then start + real i * (delta / real dv)
                            else start + real i * delta) [0..<n]))"

section \<open>Envelope generator (synthesizer.py, apply_adsr_envelope)\<close>

definition apply_adsr_envelope ::
  "real \<Rightarrow> int \<Rightarrow> real \<Rightarrow> real \<Rightarrow> real \<Rightarrow> real \<Rightarrow> py_error + real list" where
  "apply_adsr_envelope note_duration sample_rate attack decay sustain_level release =
     (let total_samples = py_int (fmul note_duration (of_int sample_rate));
          attack_samples = py_int (fmul attack (of_int sample_rate));
          decay_samples = py_int (fmul decay (of_int sample_rate));
          release_samples = py_int (fmul release (of_int sample_rate));
          sustain_samples0 = total_samples - (attack_samples + decay_samples + release_samples);
          sustain_samples = (if sustain_samples0 < 0 then 0 else sustain_samples0)
      in case linspace 0 1 attack_samples False of
           Inl e \<Rightarrow> Inl e
         | Inr attack_env \<Rightarrow>
        (case linspace 1 sustain_level decay_samples False of
           Inl e \<Rightarrow> Inl e
         | Inr decay_env \<Rightarrow>
        (let sustain_env = replicate (nat sustain_samples) sustain_level
         in case linspace sustain_level 0 release_samples True of
           Inl e \<Rightarrow> Inl e
         | Inr release_env \<Rightarrow>
        (let envelope = attack_env @ decay_env @ sustain_env @ release_env
         in if int (length envelope) < total_samples
            then Inr (envelope @ replicate (nat (total_samples - int (length envelope))) 0)
            else Inr envelope))))"

text \<open>
  The call with the default segment parameters \<^verbatim>\<open>(0.01, 0.1, 0.7, 0.2)\<close>. The three
  segment times are the float64 numbers nearest to the decimal literals; the sustain level
  is a sample value.
\<close>

definition adsr_default :: "real \<Rightarrow> int \<Rightarrow> py_error + real list" where
  "adsr_default note_duration sample_rate =
     apply_adsr_envelope note_duration sample_rate
       (fl64 (1/100)) (fl64 (1/10)) (7/10) (fl64 (1/5))"

section \<open>Voice synthesizer (synthesizer.py, HybridSynthesizer)\<close>

text \<open>
  An event is the dictionary the parsers produce; the keys \<^verbatim>\<open>type\<close>, \<^verbatim>\<open>note\<close>,
  \<^verbatim>\<open>velocity\<close>, \<^verbatim>\<open>time\<close> (microseconds), \<^verbatim>\<open>channel\<close> and \<^verbatim>\<open>value\<close> are the fields.
  Every event of the model carries all of them, as the note events of the parsers do; an
  event that lacks a key it is asked for (a KeyError in the source) is not modelled.
\<close>

record event =
  ev_type :: string
  ev_note :: int
  ev_velocity :: int
  ev_time :: int
  ev_channel :: int
  ev_value :: real

record HybridSynthesizer =
  sample_rate :: int
  channels :: nat
  duration :: real
  mode :: string

text \<open>
  A PCM buffer of shape \<open>(num_samples, channels)\<close> is represented by its columns: a list
  with one entry per channel, each entry the list of that channel's samples. The slice
  \<^verbatim>\<open>pcm[:, ch]\<close> is the \<open>ch\<close>-th entry, and \<^verbatim>\<open>pcm.shape[0]\<close> is read off the first column.
\<close>

type_synonym pcm = "real list list"

definition num_rows :: "pcm \<Rightarrow> nat" where
  "num_rows p = (case p of [] \<Rightarrow> 0 | col # _ \<Rightarrow> length col)"

definition synthesize_note ::
  "HybridSynthesizer \<Rightarrow> real \<Rightarrow> real \<Rightarrow> int \<Rightarrow> py_error + real list" where
  "synthesize_note self freq dur velocity =
     (let num_samples = py_int (fmul dur (of_int (sample_rate self)))
      in case linspace 0 dur num_samples False of
           Inl e \<Rightarrow> Inl e
         | Inr t \<Rightarrow>
        (let tone = map (\<lambda>ti. sin (2 * pi * freq * ti)) t
         in case adsr_default dur (sample_rate self) of
           Inl e \<Rightarrow> Inl e
         | Inr envelope \<Rightarrow>
        (let min_len = min (length tone) (length envelope);
             tone' = (if length tone \<noteq> length envelope then take min_len tone else tone);
             envelope' = (if length tone \<noteq> length envelope then take min_len envelope
                          else envelope);
             velocity_factor = of_int velocity / 127
         in Inr (map2 (\<lambda>x g. x * g * velocity_factor) tone' envelope'))))"

text \<open>A slice bound \<^verbatim>\<open>i\<close> on a sequence of length \<open>n\<close>, as Python clamps it.\<close>

definition slice_index :: "nat \<Rightarrow> int \<Rightarrow> nat" where
  "slice_index n i = (if i < 0 then nat (max 0 (i + int n)) else min (nat i) n)"

text \<open>
  \<^verbatim>\<open>col[start:stop] += rhs\<close> on one column: the right-hand side must have the length of
  the slice or length one (broadcast); NumPy raises ValueError otherwise.
\<close>

definition add_slice :: "real list \<Rightarrow> int \<Rightarrow> int \<Rightarrow> real list \<Rightarrow> py_error + real list" where
  "add_slice col start stop rhs =
     (let lo = slice_index (length col) start;
          hi = slice_index (length col) stop;
          s = hi - lo
      in if length rhs = s
         then Inr (take lo col @ map2 (+) (take s (drop lo col)) rhs @ drop (lo + s) col)
         else if length rhs = 1
         then Inr (take lo col @ map (\<lambda>x. x + hd rhs) (take s (drop lo col)) @ drop (lo + s) col)
         else Inl ValueError)"

definition add_rows :: "pcm \<Rightarrow> int \<Rightarrow> int \<Rightarrow> real list \<Rightarrow> py_error + pcm" where
  "add_rows audio start stop rhs =
     (if list_all (\<lambda>col. \<not> isl (add_slice col start stop rhs)) audio
      then Inr (map (\<lambda>col. projr (add_slice col start stop rhs)) audio)
      else Inl ValueError)"

text \<open>
  The start offset of a voice, \<^verbatim>\<open>int(event['time'] * self.sample_rate / 1e6)\<close>. The product
  is an integer; only the truncation of the quotient is used, and the float64 rounding of
  the quotient cannot move it across an integer while the product is below \<open>2\<^sup>5\<^sup>3\<close>, so the
  quotient is kept exact.
\<close>

definition start_sample :: "HybridSynthesizer \<Rightarrow> event \<Rightarrow> int" where
  "start_sample self ev = py_int (of_int (ev_time ev * sample_rate self) / 1000000)"

text \<open>
  One voice (the nested function \<^verbatim>\<open>synthesize\<close> of \<^verbatim>\<open>render\<close>). It runs in a thread of
  its own: an exception of \<^verbatim>\<open>synthesize_note\<close> is caught and the voice returns, an exception
  of the additive write ends the thread; either way the master buffer is left as it was.
  The lock makes each write atomic, so the voices are modelled one after the other.
\<close>

definition synthesize :: "HybridSynthesizer \<Rightarrow> int \<Rightarrow> pcm \<Rightarrow> event \<Rightarrow> real \<Rightarrow> pcm" where
  "synthesize self num_samples audio ev duration_sec =
     (let start = start_sample self ev;
          freq = 440 * 2 powr (of_int (ev_note ev - 69) / 12)
      in case synthesize_note self freq duration_sec (ev_velocity ev) of
           Inl e \<Rightarrow> audio
         | Inr note_wave \<Rightarrow>
        (let end_sample = min (start + int (length note_wave)) num_samples;
             rhs = take (slice_index (length note_wave) (end_sample - start)) note_wave
         in case add_rows audio start end_sample rhs of
              Inl e \<Rightarrow> audio
            | Inr audio' \<Rightarrow> audio'))"

text \<open>The inner loop of \<^verbatim>\<open>render\<close>: the first later note-off of the same note and channel.\<close>

fun note_duration_sec :: "event \<Rightarrow> event list \<Rightarrow> real" where
  "note_duration_sec ev [] = 1/2"
| "note_duration_sec ev (subsequent # rest) =
     (if ev_type subsequent = ''note_off'' \<and> ev_note subsequent = ev_note ev \<and>
         ev_channel subsequent = ev_channel ev
      then max (fl64 (1/10))
             (fsub (fdiv (of_int (ev_time subsequent)) 1000000)
                   (fdiv (of_int (ev_time ev)) 1000000))
      else note_duration_sec ev rest)"

fun render_voices :: "HybridSynthesizer \<Rightarrow> int \<Rightarrow> event list \<Rightarrow> pcm \<Rightarrow> pcm" where
  "render_voices self num_samples [] audio = audio"
| "render_voices self num_samples (ev # rest) audio =
     (if ev_type ev = ''note_on''
      then render_voices self num_samples rest
             (synthesize self num_samples audio ev (note_duration_sec ev rest))
      else render_voices self num_samples rest audio)"

definition render :: "HybridSynthesizer \<Rightarrow> event list \<Rightarrow> py_error + pcm" where
  "render self evs =
     (let num_samples = py_int (fmul (of_int (sample_rate self)) (duration self))
      in if num_samples < 0 then Inl ValueError
         else Inr (render_voices self num_samples evs
                     (replicate (channels self) (replicate (nat num_samples) 0))))"

section \<open>Orchestrator (converter.py, UniversalConverter)\<close>

text \<open>
  The converter object after \<^verbatim>\<open>__init__\<close>, called with a list of events (the branch
  that reads a MIDI file hands over such a list as well). \<open>target_length_sec\<close> is the
  value of \<^verbatim>\<open>parse_target_length\<close>, a whole number of seconds, or \<open>None\<close> for the
  target length \<^verbatim>\<open>00:00\<close>. The fields that no computation reads (style, tempo, piano
  type, bit depth) are left out.
\<close>

record UniversalConverter =
  conv_sample_rate :: int
  conv_channels :: nat
  default_duration :: real
  target_length_sec :: "int option"
  midi_events :: "event list"
  conv_duration :: real

definition UniversalConverter_init ::
  "event list \<Rightarrow> int \<Rightarrow> nat \<Rightarrow> real \<Rightarrow> int option \<Rightarrow> int \<Rightarrow> real \<Rightarrow> UniversalConverter" where
  "UniversalConverter_init evs sr ch dflt target transposition tempo =
     (let evs1 = map (\<lambda>e. e\<lparr>ev_note := ev_note e + transposition\<rparr>) evs;
          evs2 = map (\<lambda>e. if ev_type e = ''tempo'' then e\<lparr>ev_value := tempo\<rparr> else e) evs1;
          dur = (if evs2 \<noteq> []
                 then max dflt (fadd (fdiv (of_int (ev_time (last evs2))) 1000000) (1/2))
                 else dflt)
      in \<lparr>conv_sample_rate = sr, conv_channels = ch, default_duration = dflt,
          target_length_sec = target, midi_events = evs2, conv_duration = dur\<rparr>)"

definition generate_waveform :: "UniversalConverter \<Rightarrow> py_error + pcm" where
  "generate_waveform self =
     render \<lparr>sample_rate = conv_sample_rate self, channels = conv_channels self,
             duration = conv_duration self, mode = ''adsr''\<rparr> (midi_events self)"

text \<open>The first error of a list of results, or all the values.\<close>

fun collect :: "('e + 'a) list \<Rightarrow> 'e + 'a list" where
  "collect [] = Inr []"
| "collect (Inl e # rs) = Inl e"
| "collect (Inr x # rs) = (case collect rs of Inl e \<Rightarrow> Inl e | Inr xs \<Rightarrow> Inr (x # xs))"

text \<open>
  \<^verbatim>\<open>scipy.signal.resample_poly(x, up, down)\<close> is library code. Its argument check, the
  reduction of \<open>up/down\<close> by their gcd, the shortcut that returns a copy of \<open>x\<close> when the
  reduced factors are both one, and its output length \<open>ceil(len(x) * up / down)\<close> are
  modelled; the interpolated sample values are left to the parameter \<open>interp\<close>.
\<close>

definition resample_poly ::
  "(real list \<Rightarrow> nat \<Rightarrow> nat \<Rightarrow> nat \<Rightarrow> real) \<Rightarrow> real list \<Rightarrow> int \<Rightarrow> int \<Rightarrow> py_error + real list" where
  "resample_poly interp x up down =
     (if up < 1 \<or> down < 1 then Inl ValueError
      else
        let g = gcd up down;
            up' = nat (up div g);
            down' = nat (down div g)
        in if up' = 1 \<and> down' = 1 then Inr x
           else
             let n_out = (length x * up') div down' +
                         (if (length x * up') mod down' \<noteq> 0 then 1 else 0)
             in Inr (map (interp x up' down') [0..<n_out]))"

definition time_stretch ::
  "(real list \<Rightarrow> nat \<Rightarrow> nat \<Rightarrow> nat \<Rightarrow> real) \<Rightarrow> UniversalConverter \<Rightarrow> pcm \<Rightarrow> real \<Rightarrow> py_error + pcm" where
  "time_stretch interp self p target_duration_sec =
     (if conv_sample_rate self = 0 then Inl ZeroDivisionError
      else
        let current_duration = fdiv (real (num_rows p)) (of_int (conv_sample_rate self))
        in if current_duration \<le> 0 then Inr p
           else
             let ratio = fdiv target_duration_sec current_duration;
                 new_num_samples = py_int (fmul (real (num_rows p)) ratio)
             in if new_num_samples < 0 then Inl ValueError
                else collect (map (\<lambda>col.
                       case resample_poly interp col new_num_samples (int (num_rows p)) of
                         Inl e \<Rightarrow> Inl e
                       | Inr r \<Rightarrow> if int (length r) = new_num_samples then Inr r
                                  else Inl ValueError) p))"

text \<open>The time-stretch step of \<^verbatim>\<open>convert\<close>.\<close>

definition convert_time_stretch ::
  "(real list \<Rightarrow> nat \<Rightarrow> nat \<Rightarrow> nat \<Rightarrow> real) \<Rightarrow> UniversalConverter \<Rightarrow> pcm \<Rightarrow> py_error + pcm" where
  "convert_time_stretch interp self processed_pcm =
     (case target_length_sec self of
        None \<Rightarrow> Inr processed_pcm
      | Some t \<Rightarrow> time_stretch interp self processed_pcm (of_int t))"

section \<open>Normalizer (pipeline.py)\<close>

text \<open>
  \<^verbatim>\<open>np.max(np.abs(xs))\<close> over all samples; NumPy raises ValueError on an array without
  elements.
\<close>

definition np_max_abs :: "real list \<Rightarrow> py_error + real" where
  "np_max_abs xs =
     (case xs of [] \<Rightarrow> Inl ValueError
      | x # rest \<Rightarrow> Inr (fold (\<lambda>y m. max \<bar>y\<bar> m) rest \<bar>x\<bar>))"

text \<open>
  The two calls of \<^verbatim>\<open>np.random.uniform(-dither_amp, dither_amp, pcm.shape)\<close> draw from the
  global generator. The draws are the parameters \<open>u1\<close> and \<open>u2\<close>: \<open>u1 ch i\<close> is the first
  draw for sample \<open>i\<close> of channel \<open>ch\<close>.
\<close>

definition Normalizer_process ::
  "real \<Rightarrow> (nat \<Rightarrow> nat \<Rightarrow> real) \<Rightarrow> (nat \<Rightarrow> nat \<Rightarrow> real) \<Rightarrow> pcm \<Rightarrow> py_error + pcm" where
  "Normalizer_process dither_amp u1 u2 p =
     (case np_max_abs (concat p) of
        Inl e \<Rightarrow> Inl e
      | Inr max_val \<Rightarrow>
        (let p' = (if max_val > 0 then map (map (\<lambda>x. x / max_val)) p else p)
         in Inr (map (\<lambda>(ch, col). map (\<lambda>(i, x). x + (u1 ch i + u2 ch i)) (enumerate 0 col))
                     (enumerate 0 p'))))"

section \<open>Reverb engine (effects.py, apply_advanced_reverb)\<close>

text \<open>\<^verbatim>\<open>xs[i] = v\<close> with Python's indexing: a negative index counts from the end.\<close>

definition set_item :: "real list \<Rightarrow> int \<Rightarrow> real \<Rightarrow> py_error + real list" where
  "set_item xs i v =
     (let n = int (length xs); j = (if i < 0 then i + n else i)
      in if 0 \<le> j \<and> j < n then Inr (xs[nat j := v]) else Inl IndexError)"

definition py_max :: "int list \<Rightarrow> py_error + int" where
  "py_max xs = (case xs of [] \<Rightarrow> Inl ValueError | x # rest \<Rightarrow> Inr (fold max rest x))"

definition normalize_peak :: "real list \<Rightarrow> py_error + real list" where
  "normalize_peak xs =
     (case np_max_abs xs of
        Inl e \<Rightarrow> Inl e
      | Inr m \<Rightarrow> Inr (if m \<noteq> 0 then map (\<lambda>x. x / m) xs else xs))"

fun early_reflections :: "real list \<Rightarrow> int \<Rightarrow> int \<Rightarrow> real \<Rightarrow> int list \<Rightarrow> py_error + real list" where
  "early_reflections early_ir early_ir_length sr early_decay [] = Inr early_ir"
| "early_reflections early_ir early_ir_length sr early_decay (delay_ms # rest) =
     (let delay_samples = py_int (of_int (delay_ms * sr) / 1000)
      in if delay_samples < early_ir_length
         then (case set_item early_ir delay_samples early_decay of
                 Inl e \<Rightarrow> Inl e
               | Inr ir' \<Rightarrow> early_reflections ir' early_ir_length sr early_decay rest)
         else early_reflections early_ir early_ir_length sr early_decay rest)"

text \<open>
  The combined impulse response. \<open>randn i\<close> is the \<open>i\<close>-th draw of
  \<^verbatim>\<open>np.random.randn(tail_length)\<close>. The delays in samples are truncated quotients of an
  integer by 1000, kept exact as for the start offset of a voice.
\<close>

definition reverb_ir ::
  "(nat \<Rightarrow> real) \<Rightarrow> int \<Rightarrow> int list \<Rightarrow> real \<Rightarrow> real \<Rightarrow> real \<Rightarrow> py_error + real list" where
  "reverb_ir randn sr early_delay_ms early_decay tail_decay tail_length_sec =
     (case py_max early_delay_ms of
        Inl e \<Rightarrow> Inl e
      | Inr max_delay \<Rightarrow>
        (let early_ir_length = py_int (of_int (max_delay * sr) / 1000) + 1
         in if early_ir_length < 0 then Inl ValueError
            else case set_item (replicate (nat early_ir_length) 0) 0 1 of
              Inl e \<Rightarrow> Inl e
            | Inr ir0 \<Rightarrow>
           (case early_reflections ir0 early_ir_length sr early_decay early_delay_ms of
              Inl e \<Rightarrow> Inl e
            | Inr ir1 \<Rightarrow>
           (case normalize_peak ir1 of
              Inl e \<Rightarrow> Inl e
            | Inr early_ir \<Rightarrow>
           (let tail_length = py_int (fmul tail_length_sec (of_int sr))
            in case linspace 0 tail_length_sec tail_length False of
              Inl e \<Rightarrow> Inl e
            | Inr t \<Rightarrow>
           (let tail0 = map (\<lambda>(i, ti). (randn i * exp (- 3 * ti)) * tail_decay ^ i)
                            (enumerate 0 t)
            in case normalize_peak tail0 of
              Inl e \<Rightarrow> Inl e
            | Inr tail_ir \<Rightarrow>
           (let combined_length = max early_ir_length tail_length;
                early_ir_padded =
                  early_ir @ replicate (nat (combined_length - early_ir_length)) 0;
                tail_ir_padded = tail_ir @ replicate (nat (combined_length - tail_length)) 0
            in Inr (map2 (+) early_ir_padded tail_ir_padded))))))))"

text \<open>
  \<^verbatim>\<open>scipy.signal.fftconvolve(x, h, mode='full')\<close> computes the linear convolution of two
  sequences (through an FFT, up to rounding); it is modelled as the exact convolution, of
  length \<open>len(x) + len(h) - 1\<close>, empty when either argument is.
\<close>

fun add_padded :: "real list \<Rightarrow> real list \<Rightarrow> real list" where
  "add_padded [] ys = ys"
| "add_padded xs [] = xs"
| "add_padded (x # xs) (y # ys) = (x + y) # add_padded xs ys"

fun fftconvolve :: "real list \<Rightarrow> real list \<Rightarrow> real list" where
  "fftconvolve [] h = []"
| "fftconvolve (x # xs) h =
     (if h = [] then [] else add_padded (map (\<lambda>c. x * c) h) (0 # fftconvolve xs h))"

definition wet_dry_mix :: "real \<Rightarrow> real list \<Rightarrow> real list \<Rightarrow> real list" where
  "wet_dry_mix wet_mix dry wet = map2 (\<lambda>d w. (1 - wet_mix) * d + wet_mix * w) dry wet"

definition apply_advanced_reverb ::
  "(nat \<Rightarrow> real) \<Rightarrow> pcm \<Rightarrow> int \<Rightarrow> int list \<Rightarrow> real \<Rightarrow> real \<Rightarrow> real \<Rightarrow> real \<Rightarrow> py_error + pcm" where
  "apply_advanced_reverb randn p sr early_delay_ms early_decay tail_decay tail_length_sec wet_mix =
     (case reverb_ir randn sr early_delay_ms early_decay tail_decay tail_length_sec of
        Inl e \<Rightarrow> Inl e
      | Inr ir \<Rightarrow>
          Inr (map (\<lambda>col. wet_dry_mix wet_mix col (take (length col) (fftconvolve col ir))) p))"

section \<open>Parametric EQ (effects.py, apply_advanced_eq)\<close>

text \<open>
  \<^verbatim>\<open>scipy.signal.iirpeak(w0, Q)\<close> is library code, modelled from its definition (with the
  default \<^verbatim>\<open>fs = 2\<close>): it rejects \<open>w0\<close> outside \<open>[0, 1]\<close> and returns the numerator and the
  denominator of a second-order resonator.
\<close>

definition iirpeak :: "real \<Rightarrow> real \<Rightarrow> py_error + (real list \<times> real list)" where
  "iirpeak w0 Q =
     (if w0 > 1 \<or> w0 < 0 then Inl ValueError
      else if Q = 0 then Inl ZeroDivisionError
      else
        let bw = (w0 / Q) * pi;
            w0' = w0 * pi;
            gb = 1 / sqrt 2;
            beta = (gb / sqrt (1 - gb ^ 2)) * tan (bw / 2);
            gain = 1 / (1 + beta)
        in Inr (map (\<lambda>c. (1 - gain) * c) [1, 0, - 1],
                [1, - 2 * gain * cos w0', 2 * gain - 1]))"

text \<open>
  \<^verbatim>\<open>scipy.signal.lfilter(b, a, x)\<close> with zero initial state:
  \<open>a\<^sub>0 y\<^sub>n = b\<^sub>0 x\<^sub>n + b\<^sub>1 x\<^sub>n\<^sub>-\<^sub>1 + \<dots> - a\<^sub>1 y\<^sub>n\<^sub>-\<^sub>1 - \<dots>\<close>. The two history lists hold the earlier
  inputs and outputs, latest first.
\<close>

fun lfilter_from :: "real list \<Rightarrow> real list \<Rightarrow> real list \<Rightarrow> real list \<Rightarrow> real list \<Rightarrow> real list" where
  "lfilter_from b a xh yh [] = []"
| "lfilter_from b a xh yh (x # xs) =
     (let y = (sum_list (map2 (*) b (x # xh)) - sum_list (map2 (*) (tl a) yh)) / hd a
      in y # lfilter_from b a (x # xh) (y # yh) xs)"

definition lfilter :: "real list \<Rightarrow> real list \<Rightarrow> real list \<Rightarrow> py_error + real list" where
  "lfilter b a x =
     (if a = [] \<or> hd a = 0 then Inl ValueError else Inr (lfilter_from b a [] [] x))"

text \<open>
  A band is a dictionary; \<^verbatim>\<open>band.get(key, default)\<close> reads it. After the loop over the
  channels the band logs the last channel index \<^verbatim>\<open>ch\<close>: on a buffer without channels the
  loop has not bound it and Python raises UnboundLocalError.
\<close>

type_synonym band = "string \<rightharpoonup> real"

definition dict_get :: "band \<Rightarrow> string \<Rightarrow> real \<Rightarrow> real" where
  "dict_get d k dflt = (case d k of None \<Rightarrow> dflt | Some v \<Rightarrow> v)"

definition eq_band :: "int \<Rightarrow> band \<Rightarrow> pcm \<Rightarrow> py_error + pcm" where
  "eq_band sr bnd processed =
     (let gain_db = dict_get bnd ''gain_db'' 0;
          center_freq = dict_get bnd ''center_freq'' 1000;
          Q = dict_get bnd ''Q'' 1
      in if sr = 0 then Inl ZeroDivisionError
         else
           let normalized_center = center_freq / (of_int sr / 2)
           in case iirpeak normalized_center Q of
                Inl e \<Rightarrow> Inl e
              | Inr (b, a) \<Rightarrow>
                  (let gain_factor = 10 powr (gain_db / 20);
                       b' = map (\<lambda>c. c * gain_factor) b
                   in if processed = [] then Inl UnboundLocalError
                      else collect (map (lfilter b' a) processed)))"

fun eq_bands :: "int \<Rightarrow> band list \<Rightarrow> pcm \<Rightarrow> py_error + pcm" where
  "eq_bands sr [] processed = Inr processed"
| "eq_bands sr (bnd # rest) processed =
     (case eq_band sr bnd processed of
        Inl e \<Rightarrow> Inl e
      | Inr processed' \<Rightarrow> eq_bands sr rest processed')"

definition apply_advanced_eq :: "pcm \<Rightarrow> int \<Rightarrow> band list option \<Rightarrow> py_error + pcm" where
  "apply_advanced_eq p sr bands =
     eq_bands sr (case bands of
                    None \<Rightarrow> [[''gain_db'' \<mapsto> 3, ''center_freq'' \<mapsto> 1000, ''Q'' \<mapsto> 1]]
                  | Some bs \<Rightarrow> bs) p"

section \<open>Auxiliary predicates and example inputs\<close>

text \<open>
  What the additive write of one voice does to a column of the master buffer: the column
  keeps its length, and sample \<open>i\<close> receives sample \<open>i - start\<close> of the waveform where
  there is one.
\<close>

definition voice_added :: "int \<Rightarrow> real list \<Rightarrow> real list \<Rightarrow> real list \<Rightarrow> bool" where
  "voice_added start wave col col' =
     (length col' = length col \<and>
      (\<forall>i<length col. col' ! i =
         col ! i + (if start \<le> int i \<and> int i < start + int (length wave)
                    then wave ! (i - nat start) else 0)))"

text \<open>A synthesizer at 4 Hz with one channel, and a note-on of A4 at 0.5 s.\<close>

definition ex_synth :: HybridSynthesizer where
  "ex_synth = \<lparr>sample_rate = 4, channels = 1, duration = 1, mode = ''adsr''\<rparr>"

definition ex_note_on :: event where
  "ex_note_on = \<lparr>ev_type = ''note_on'', ev_note = 69, ev_velocity = 127, ev_time = 500000,
                  ev_channel = 0, ev_value = 0\<rparr>"

text \<open>One note: C4 on at time 0 and off at 0.5 s.\<close>

definition ex_events :: "event list" where
  "ex_events =
     [\<lparr>ev_type = ''note_on'', ev_note = 60, ev_velocity = 100, ev_time = 0,
       ev_channel = 0, ev_value = 0\<rparr>,
      \<lparr>ev_type = ''note_off'', ev_note = 60, ev_velocity = 0, ev_time = 500000,
       ev_channel = 0, ev_value = 0\<rparr>]"

text \<open>One note: C4 on at time 0 and off at 0.57 s.\<close>

definition ex_late_events :: "event list" where
  "ex_late_events =
     [\<lparr>ev_type = ''note_on'', ev_note = 60, ev_velocity = 100, ev_time = 0,
       ev_channel = 0, ev_value = 0\<rparr>,
      \<lparr>ev_type = ''note_off'', ev_note = 60, ev_velocity = 0, ev_time = 570000,
       ev_channel = 0, ev_value = 0\<rparr>]"

text \<open>
  A converter at 4 Hz with a target length of two seconds, a converter at 44100 Hz with
  a target length of one second (\<^verbatim>\<open>target_length="00:01"\<close>), and a resampler whose
  interpolated samples are all zero.
\<close>

definition ex_converter_1s :: UniversalConverter where
  "ex_converter_1s = \<lparr>conv_sample_rate = 44100, conv_channels = 1, default_duration = 1,
                       target_length_sec = Some 1, midi_events = [], conv_duration = 1\<rparr>"

definition ex_converter :: UniversalConverter where
  "ex_converter = \<lparr>conv_sample_rate = 4, conv_channels = 1, default_duration = 1,
                    target_length_sec = Some 2, midi_events = [], conv_duration = 1\<rparr>"

definition zero_interp :: "real list \<Rightarrow> nat \<Rightarrow> nat \<Rightarrow> nat \<Rightarrow> real" where
  "zero_interp x up down k = 0"

text \<open>Sample \<open>i\<close> of a sequence, read as zero beyond its end.\<close>

definition nth0 :: "real list \<Rightarrow> nat \<Rightarrow> real" where
  "nth0 xs i = (if i < length xs then xs ! i else 0)"

text \<open>
  An EQ band of 0 dB at 1000 Hz with \<open>Q = 1\<close>, and a generator whose normal draws are
  all \<open>1/2\<close>.
\<close>

definition ex_band :: band where
  "ex_band = [''gain_db'' \<mapsto> 0, ''center_freq'' \<mapsto> 1000, ''Q'' \<mapsto> 1]"

definition ex_randn :: "nat \<Rightarrow> real" where
  "ex_randn i = 1/2"

section \<open>Properties of the float64 rounding\<close>

lemma round_even_of_int [simp]: "round_even (of_int n) = n"
  by (simp add: round_even_def)

lemma round_even_ge_floor: "\<lfloor>y\<rfloor> \<le> round_even y"
  by (simp add: round_even_def Let_def)

lemma round_even_nonneg: "0 \<le> y \<Longrightarrow> 0 \<le> round_even y"
  using round_even_ge_floor [of y] by (smt (verit) zero_le_floor)

lemma fl64_zero [simp]: "fl64 0 = 0"
  by (simp add: fl64_def)

lemma fl64_minus: "fl64 (- x) = - fl64 x"
  by (simp add: fl64_def Let_def sgn_minus)

lemma fl64_nonneg: "0 \<le> x \<Longrightarrow> 0 \<le> fl64 x"
  by (auto simp: fl64_def Let_def sgn_if
      intro!: mult_nonneg_nonneg divide_nonneg_nonneg round_even_nonneg)

lemma bitlen_geI:
  assumes "2 ^ m \<le> N"
  shows "int (Suc m) \<le> bitlen N"
proof -
  have "nat (int (Suc m)) - 1 = m" by simp
  with assms have "2 ^ (nat (int (Suc m)) - 1) \<le> N" by (simp only:)
  then show ?thesis by (simp only: bitlen_ge_iff_power) simp
qed

lemma bitlen_leI:
  assumes "N < 2 ^ m"
  shows "bitlen N \<le> int m"
proof -
  have "nat (int m) = m" by simp
  with assms have "N < 2 ^ nat (int m)" by (simp only:)
  then show ?thesis by (simp only: bitlen_le_iff_power) simp
qed

lemma bitlen_eqI:
  assumes "2 ^ m \<le> N" "N < 2 ^ Suc m"
  shows "bitlen N = int (Suc m)"
  using bitlen_geI [OF assms(1)] bitlen_leI [OF assms(2)] by (rule antisym [rotated])

lemma fl64_eval:
  assumes lo: "2 ^ 52 \<le> x * 2 ^ j" and hi: "x * 2 ^ j < 2 ^ 53" and j: "j \<le> 1074"
  shows "fl64 x = of_int (round_even (x * 2 ^ j)) / 2 ^ j"
proof -
  define k where "k = min_exp - j"
  have kj: "min_exp = j + k" using j by (simp add: k_def min_exp_def)
  have x0: "0 < x"
  proof (rule ccontr)
    assume "\<not> 0 < x"
    then have "x * 2 ^ j \<le> 0" by (simp add: mult_le_0_iff)
    with lo show False by (smt (verit) zero_less_power)
  qed
  have sc: "x * 2 ^ min_exp = (x * 2 ^ j) * 2 ^ k"
    by (simp only: kj power_add mult.assoc)
  let ?N = "\<lfloor>x * 2 ^ min_exp\<rfloor>"
  have "(2::real) ^ 52 * 2 ^ k \<le> x * 2 ^ min_exp"
    unfolding sc using lo by (intro mult_right_mono) simp_all
  then have "real_of_int (2 ^ (52 + k)) \<le> x * 2 ^ min_exp"
    by (simp only: power_add of_int_mult of_int_power of_int_numeral)
  then have N1: "2 ^ (52 + k) \<le> ?N" by (simp only: le_floor_iff)
  have "x * 2 ^ min_exp < 2 ^ 53 * 2 ^ k"
    unfolding sc using hi by (intro mult_strict_right_mono) simp_all
  moreover have "(2::real) ^ 53 * 2 ^ k = real_of_int (2 ^ Suc (52 + k))"
    by (simp add: power_add)
  ultimately have "x * 2 ^ min_exp < real_of_int (2 ^ Suc (52 + k))" by (simp only:)
  then have N2: "?N < 2 ^ Suc (52 + k)" by (simp only: floor_less_iff)
  have "bitlen ?N = int (Suc (52 + k))" using N1 N2 by (rule bitlen_eqI)
  then have "nat (bitlen ?N - 53) = k" by simp
  then have kk: "nat (bitlen \<lfloor>\<bar>x\<bar> * 2 ^ min_exp\<rfloor> - 53) = k" using x0 by simp
  have a: "\<bar>x\<bar> * 2 ^ min_exp / 2 ^ k = x * 2 ^ j" using x0 by (simp add: sc)
  have b: "of_int n * (2::real) ^ k / 2 ^ min_exp = of_int n / 2 ^ j" for n :: int
    by (simp add: kj power_add)
  have "fl64 x = sgn x * (of_int (round_even (x * 2 ^ j)) * 2 ^ k / 2 ^ min_exp)"
    by (simp only: fl64_def Let_def kk a)
  then show ?thesis using x0 by (simp only: b sgn_pos mult_1)
qed

lemma fl64_ge_1:
  assumes "1 \<le> x"
  shows "1 \<le> fl64 x"
proof -
  let ?N = "\<lfloor>x * 2 ^ min_exp\<rfloor>"
  define k where "k = nat (bitlen ?N - 53)"
  let ?y = "x * 2 ^ min_exp / 2 ^ k"
  have x0: "0 < x" using assms by simp
  have "(1::real) * 2 ^ min_exp \<le> x * 2 ^ min_exp"
    using assms by (intro mult_right_mono) simp_all
  then have "real_of_int (2 ^ min_exp) \<le> x * 2 ^ min_exp" by simp
  then have N: "2 ^ min_exp \<le> ?N" by (simp only: le_floor_iff)
  then have Npos: "0 < ?N" by (smt (verit) zero_less_power)
  have "int (Suc min_exp) \<le> bitlen ?N" using N by (rule bitlen_geI)
  then have k: "int k = bitlen ?N - 53" "min_exp \<le> k + 52"
    by (simp_all add: k_def min_exp_def)
  have "2 ^ nat (bitlen ?N - 1) \<le> ?N" using bitlen_bounds [OF Npos] by simp
  moreover have "nat (bitlen ?N - 1) = k + 52" using k(1) by linarith
  ultimately have "2 ^ (k + 52) \<le> ?N" by simp
  then have "real_of_int (2 ^ (k + 52)) \<le> x * 2 ^ min_exp" by (simp only: le_floor_iff)
  then have "(2::real) ^ 52 * 2 ^ k \<le> x * 2 ^ min_exp" by (simp add: power_add mult.commute)
  then have "(2::real) ^ 52 \<le> ?y" by (simp add: field_simps)
  then have "real_of_int (2 ^ 52) \<le> ?y" by simp
  then have "2 ^ 52 \<le> \<lfloor>?y\<rfloor>" by (simp only: le_floor_iff)
  with round_even_ge_floor [of ?y] have "2 ^ 52 \<le> round_even ?y" by linarith
  then have "real_of_int (2 ^ 52) \<le> of_int (round_even ?y)" by (simp only: of_int_le_iff)
  then have "(2::real) ^ 52 \<le> of_int (round_even ?y)" by simp
  then have "(2::real) ^ 52 * 2 ^ k \<le> of_int (round_even ?y) * 2 ^ k"
    by (intro mult_right_mono) simp_all
  moreover have "(2::real) ^ min_exp \<le> 2 ^ (k + 52)"
    using k(2) by (intro power_increasing) simp_all
  then have "(2::real) ^ min_exp \<le> 2 ^ 52 * 2 ^ k" by (simp add: power_add mult.commute)
  ultimately have "(2::real) ^ min_exp \<le> of_int (round_even ?y) * 2 ^ k" by linarith
  then have "(1::real) \<le> of_int (round_even ?y) * 2 ^ k / 2 ^ min_exp"
    by (simp add: field_simps)
  then show ?thesis using x0 by (simp add: fl64_def Let_def k_def)
qed

lemma fl64_le_minus_1: "x \<le> - 1 \<Longrightarrow> fl64 x \<le> - 1"
  using fl64_ge_1 [of "- x"] by (simp add: fl64_minus)

lemma fl64_of_nat:
  assumes "n < 2 ^ 53"
  shows "fl64 (real n) = real n"
proof (cases "n = 0")
  case True
  then show ?thesis by simp
next
  case False
  then have pos: "0 < int n" by simp
  define b where "b = nat (bitlen (int n))"
  have b: "bitlen (int n) = int b" by (simp add: b_def bitlen_nonneg)
  have nb: "nat (bitlen (int n) - 1) = b - 1" "nat (bitlen (int n)) = b"
    unfolding b by arith+
  from bitlen_bounds [OF pos] have lo: "2 ^ (b - 1) \<le> int n" and hi: "int n < 2 ^ b"
    by (simp_all only: nb)
  have b1: "1 \<le> b"
  proof (rule ccontr)
    assume "\<not> 1 \<le> b"
    then have "b = 0" by simp
    with hi pos show False by simp
  qed
  have b53: "b \<le> 53"
  proof (rule ccontr)
    assume "\<not> b \<le> 53"
    then have "54 \<le> b" by simp
    then have "(2::int) ^ 53 \<le> 2 ^ (b - 1)" by (intro power_increasing) simp_all
    moreover from assms have "int n < int (2 ^ 53)" by (simp only: of_nat_less_iff)
    then have "int n < 2 ^ 53" by simp
    ultimately show False using lo by linarith
  qed
  define j where "j = 53 - b"
  have e1: "(b - 1) + j = 52" and e2: "b + j = 53" using b1 b53 by (simp_all add: j_def)
  have "real_of_int (2 ^ (b - 1)) \<le> real_of_int (int n)" using lo by (simp only: of_int_le_iff)
  then have "(2::real) ^ (b - 1) \<le> real n" by simp
  then have "(2::real) ^ (b - 1) * 2 ^ j \<le> real n * 2 ^ j"
    by (intro mult_right_mono) simp_all
  then have l: "(2::real) ^ 52 \<le> real n * 2 ^ j"
    by (simp only: power_add [symmetric] e1)
  have "real_of_int (int n) < real_of_int (2 ^ b)" using hi by (simp only: of_int_less_iff)
  then have "real n < 2 ^ b" by simp
  then have "real n * 2 ^ j < 2 ^ b * 2 ^ j"
    by (intro mult_strict_right_mono) simp_all
  then have h: "real n * 2 ^ j < 2 ^ 53"
    by (simp only: power_add [symmetric] e2)
  have "j \<le> 1074" by (simp add: j_def)
  from fl64_eval [OF l h this]
  have "fl64 (real n) = of_int (round_even (real n * 2 ^ j)) / 2 ^ j" .
  moreover have "real n * 2 ^ j = real_of_int (int (n * 2 ^ j))" by simp
  ultimately have "fl64 (real n) = real_of_int (int (n * 2 ^ j)) / 2 ^ j"
    by (simp only: round_even_of_int)
  then show ?thesis by simp
qed

lemma fl64_one [simp]: "fl64 1 = 1"
  using fl64_of_nat [of 1] by simp

lemma fl64_numeral:
  assumes "(numeral w :: nat) < 2 ^ 53"
  shows "fl64 (numeral w) = numeral w"
  using fl64_of_nat [OF assms] by simp

lemma fl64_of_int_nonneg:
  assumes "0 \<le> m" "m < 2 ^ 53"
  shows "fl64 (real_of_int m) = real_of_int m"
proof -
  have "nat m < 2 ^ 53" using assms by (simp add: nat_less_iff)
  from fl64_of_nat [OF this] show ?thesis using assms(1) by simp
qed

text \<open>Below one the rounding error is at most \<open>2\<^sup>-\<^sup>5\<^sup>3\<close>.\<close>

lemma round_even_le: "real_of_int (round_even y) \<le> y + 1"
proof -
  have "real_of_int (round_even y) \<le> real_of_int (\<lfloor>y\<rfloor> + 1)"
    by (simp only: of_int_le_iff) (simp add: round_even_def Let_def)
  also have "\<dots> \<le> y + 1" by simp
  finally show ?thesis .
qed

lemma fl64_lt_1:
  assumes x0: "0 \<le> x" and x1: "x \<le> 9/10"
  shows "fl64 x < 1"
proof (cases "x = 0")
  case True
  then show ?thesis by simp
next
  case False
  with x0 have pos: "0 < x" by simp
  let ?N = "\<lfloor>x * 2 ^ min_exp\<rfloor>"
  define k where "k = nat (bitlen ?N - 53)"
  let ?y = "x * 2 ^ min_exp / 2 ^ k"
  have "x * 2 ^ min_exp < 1 * 2 ^ min_exp"
    using x1 by (intro mult_strict_right_mono) simp_all
  then have "x * 2 ^ min_exp < real_of_int (2 ^ min_exp)" by simp
  then have "?N < 2 ^ min_exp" by (simp only: floor_less_iff)
  then have "bitlen ?N \<le> int min_exp" by (rule bitlen_leI)
  then have k: "k + 53 \<le> min_exp" by (simp add: k_def min_exp_def)
  have "(2::real) ^ (k + 53) \<le> 2 ^ min_exp"
    using k by (intro power_increasing) simp_all
  then have err: "(2::real) ^ k / 2 ^ min_exp \<le> 1 / 2 ^ 53"
    by (simp add: power_add field_simps)
  have "fl64 x = real_of_int (round_even ?y) * 2 ^ k / 2 ^ min_exp"
    using pos by (simp add: fl64_def Let_def k_def)
  also have "\<dots> \<le> (?y + 1) * 2 ^ k / 2 ^ min_exp"
    using round_even_le [of ?y] by (intro divide_right_mono mult_right_mono) simp_all
  also have "\<dots> = x + 2 ^ k / 2 ^ min_exp"
    by (simp add: field_simps)
  also have "\<dots> \<le> 9/10 + 1 / 2 ^ 53" using x1 err by linarith
  also have "\<dots> < 1" by simp
  finally show ?thesis .
qed

text \<open>The float64 numbers nearest to the decimals of the default envelope.\<close>

lemma fl64_hundredth: "fl64 (1/100) = 5764607523034235 / 576460752303423488"
  by (subst fl64_eval [of _ 59]) (simp_all add: round_even_def)

lemma fl64_tenth: "fl64 (1/10) = 3602879701896397 / 36028797018963968"
  by (subst fl64_eval [of _ 56]) (simp_all add: round_even_def)

lemma fl64_fifth: "fl64 (1/5) = 3602879701896397 / 18014398509481984"
  by (subst fl64_eval [of _ 55]) (simp_all add: round_even_def)

section \<open>Properties of the envelope generator\<close>

lemma linspace_ok:
  "0 \<le> num \<Longrightarrow> \<exists>xs. linspace a b num e = Inr xs \<and> length xs = nat num"
  by (simp add: linspace_def Let_def)

lemma linspace_fail: "num < 0 \<Longrightarrow> linspace a b num e = Inl ValueError"
  by (simp add: linspace_def)

lemma adsr_length:
  assumes a: "0 \<le> py_int (fmul attack (of_int sr))"
      and d: "0 \<le> py_int (fmul decay (of_int sr))"
      and r: "0 \<le> py_int (fmul release (of_int sr))"
  shows "\<exists>env. apply_adsr_envelope dur sr attack decay sl release = Inr env \<and>
           int (length env) =
             max (py_int (fmul dur (of_int sr)))
                 (py_int (fmul attack (of_int sr)) + py_int (fmul decay (of_int sr)) + py_int (fmul release (of_int sr)))"
proof -
  obtain ae where ae: "linspace 0 1 (py_int (fmul attack (of_int sr))) False = Inr ae"
      "length ae = nat (py_int (fmul attack (of_int sr)))"
    using linspace_ok [OF a] by blast
  obtain de where de: "linspace 1 sl (py_int (fmul decay (of_int sr))) False = Inr de"
      "length de = nat (py_int (fmul decay (of_int sr)))"
    using linspace_ok [OF d] by blast
  obtain re where re: "linspace sl 0 (py_int (fmul release (of_int sr))) True = Inr re"
      "length re = nat (py_int (fmul release (of_int sr)))"
    using linspace_ok [OF r] by blast
  show ?thesis
    using a d r by (simp add: apply_adsr_envelope_def Let_def ae de re)
qed

lemma adsr_fail:
  assumes "py_int (fmul attack (of_int sr)) < 0 \<or> py_int (fmul decay (of_int sr)) < 0 \<or>
           py_int (fmul release (of_int sr)) < 0"
  shows "apply_adsr_envelope dur sr attack decay sl release = Inl ValueError"
proof (cases "py_int (fmul attack (of_int sr)) < 0")
  case True
  then show ?thesis
    by (simp add: apply_adsr_envelope_def Let_def linspace_fail)
next
  case na: False
  then obtain ae where ae: "linspace 0 1 (py_int (fmul attack (of_int sr))) False = Inr ae"
    using linspace_ok [of "py_int (fmul attack (of_int sr))"] by fastforce
  show ?thesis
  proof (cases "py_int (fmul decay (of_int sr)) < 0")
    case True
    then show ?thesis
      by (simp add: apply_adsr_envelope_def Let_def ae linspace_fail)
  next
    case nd: False
    then obtain de where de: "linspace 1 sl (py_int (fmul decay (of_int sr))) False = Inr de"
      using linspace_ok [of "py_int (fmul decay (of_int sr))"] by fastforce
    from assms na nd have "py_int (fmul release (of_int sr)) < 0" by simp
    then show ?thesis
      by (simp add: apply_adsr_envelope_def Let_def ae de linspace_fail)
  qed
qed

text \<open>The segment lengths of the default envelope at 48000 Hz.\<close>

lemma default_segments_48000:
  "py_int (fmul (fl64 (1/100)) (of_int 48000)) = 480"
  "py_int (fmul (fl64 (1/10)) (of_int 48000)) = 4800"
  "py_int (fmul (fl64 (1/5)) (of_int 48000)) = 9600"
proof -
  have "fl64 (5764607523034235 / 576460752303423488 * 48000) = 480"
    by (subst fl64_eval [of _ 44]) (simp_all add: round_even_def)
  then show "py_int (fmul (fl64 (1/100)) (of_int 48000)) = 480"
    by (simp add: fmul_def fl64_hundredth py_int_def)
  have "fl64 (3602879701896397 / 36028797018963968 * 48000) = 4800"
    by (subst fl64_eval [of _ 40]) (simp_all add: round_even_def)
  then show "py_int (fmul (fl64 (1/10)) (of_int 48000)) = 4800"
    by (simp add: fmul_def fl64_tenth py_int_def)
  have "fl64 (3602879701896397 / 18014398509481984 * 48000) = 9600"
    by (subst fl64_eval [of _ 39]) (simp_all add: round_even_def)
  then show "py_int (fmul (fl64 (1/5)) (of_int 48000)) = 9600"
    by (simp add: fmul_def fl64_fifth py_int_def)
qed

text \<open>
  The segment lengths of the default envelope are not negative for a sample rate above
  \<open>-5\<close>, and the release segment has a negative length for a sample rate of at most \<open>-5\<close>.
\<close>

lemma py_int_fl64_nonneg:
  assumes "0 \<le> c" "c \<le> 21/100" "- 5 < sr"
  shows "0 \<le> py_int (fmul c (of_int sr))"
proof (cases "0 \<le> sr")
  case True
  then have "0 \<le> c * of_int sr" using assms(1) by simp
  then have "0 \<le> fl64 (c * of_int sr)" by (rule fl64_nonneg)
  then show ?thesis by (simp add: fmul_def py_int_def)
next
  case False
  then have m: "0 < - sr" "- sr \<le> 4" using assms(3) by linarith+
  have "0 \<le> real_of_int (- sr)" using m(1) by linarith
  with assms(1) have x0: "0 \<le> c * of_int (- sr)" by (rule mult_nonneg_nonneg)
  have "c * of_int (- sr) \<le> (21/100) * 4"
    using assms m by (intro mult_mono) simp_all
  then have x1: "c * of_int (- sr) \<le> 9/10" by simp
  have a: "0 \<le> fl64 (c * of_int (- sr))" using x0 by (rule fl64_nonneg)
  have b: "fl64 (c * of_int (- sr)) < 1" using x0 x1 by (rule fl64_lt_1)
  have "fl64 (c * of_int sr) = - fl64 (c * of_int (- sr))"
    using fl64_minus [of "c * of_int (- sr)"] by simp
  with a b have "- 1 < fl64 (c * of_int sr)" "fl64 (c * of_int sr) \<le> 0" by linarith+
  then have "\<lceil>fl64 (c * of_int sr)\<rceil> = 0" by (simp add: ceiling_eq_iff)
  with \<open>fl64 (c * of_int sr) \<le> 0\<close> show ?thesis
    by (cases "fl64 (c * of_int sr) = 0") (simp_all add: fmul_def py_int_def)
qed

lemma default_release_negative:
  assumes "sr \<le> - 5"
  shows "py_int (fmul (fl64 (1/5)) (of_int sr)) < 0"
proof -
  have "real_of_int sr \<le> - 5" using assms by linarith
  then have "3602879701896397 / 18014398509481984 * real_of_int sr \<le> - 1" by simp
  then have "fl64 (3602879701896397 / 18014398509481984 * real_of_int sr) \<le> - 1"
    by (rule fl64_le_minus_1)
  then show ?thesis
    by (simp add: fmul_def fl64_fifth py_int_def ceiling_less_iff)
qed

lemma default_segments_bounds:
  "0 \<le> fl64 (1/100)" "fl64 (1/100) \<le> 21/100" "0 \<le> fl64 (1/10)" "fl64 (1/10) \<le> 21/100"
  "0 \<le> fl64 (1/5)" "fl64 (1/5) \<le> 21/100"
  by (simp_all add: fl64_hundredth fl64_tenth fl64_fifth)

text \<open>
  Claim C1 (output length of the envelope generator). The claim asks for a gain sequence of
  exactly \<open>floor(durationSec * sampleRate)\<close> samples, truncated when attack, decay and
  release overshoot the total. The generator pads a short envelope and never truncates a
  long one: for a note of 0.1 s at 48000 Hz the total is 4800 samples, and the envelope
  returned has the 480 + 4800 + 9600 = 14880 samples of the three segments.
\<close>

theorem adsr_short_note_overshoots:
  "\<not> isl (adsr_default (1/10) 48000) \<and>
   length (projr (adsr_default (1/10) 48000)) = 14880 \<and>
   py_int ((1/10) * of_int 48000) = 4800"
proof -
  have t: "py_int (fmul (1/10) (of_int 48000)) = 4800"
    by (simp add: fmul_def fl64_numeral py_int_def)
  have "\<exists>env. adsr_default (1/10) 48000 = Inr env \<and> int (length env) = 14880"
    unfolding adsr_default_def
    using adsr_length [of "fl64 (1/100)" 48000 "fl64 (1/10)" "fl64 (1/5)" "1/10" "7/10"]
    by (simp only: default_segments_48000 t) simp
  then show ?thesis by (auto simp: py_int_def)
qed

text \<open>
  The same note with its duration given as the float64 number nearest to 0.1, as the
  program has it: the total is 4800 samples again, the envelope has 14880.
\<close>

lemma adsr_short_note_overshoots_float64:
  "\<not> isl (adsr_default (fl64 (1/10)) 48000) \<and>
   length (projr (adsr_default (fl64 (1/10)) 48000)) = 14880 \<and>
   py_int (fmul (fl64 (1/10)) (of_int 48000)) = 4800"
proof -
  have "\<exists>env. adsr_default (fl64 (1/10)) 48000 = Inr env \<and> int (length env) = 14880"
    unfolding adsr_default_def
    using adsr_length [of "fl64 (1/100)" 48000 "fl64 (1/10)" "fl64 (1/5)" "fl64 (1/10)" "7/10"]
    by (simp only: default_segments_48000) simp
  then show ?thesis by (auto simp: default_segments_48000 [unfolded of_int_numeral])
qed

text \<open>
  Claim C6 (parameter validation of the envelope generator), as the code has it. The
  generator checks none of its parameters and has no InvalidParameterError: with the
  default segment times it fails exactly when the sample rate is at most \<open>-5\<close>, where a
  segment length is negative and NumPy raises ValueError, and it returns a gain sequence
  in every other case, whatever the duration; so it does not fail for a positive duration
  and sample rate.
\<close>

theorem adsr_default_fails_iff:
  "(adsr_default dur sr = Inl ValueError) = (sr \<le> - 5) \<and>
   isl (adsr_default dur sr) = (sr \<le> - 5)"
proof (cases "sr \<le> - 5")
  case True
  then have "py_int (fmul (fl64 (1/5)) (of_int sr)) < 0"
    by (rule default_release_negative)
  then have "adsr_default dur sr = Inl ValueError"
    unfolding adsr_default_def by (intro adsr_fail) simp
  with True show ?thesis by simp
next
  case False
  then have sr: "- 5 < sr" by simp
  have "0 \<le> py_int (fmul (fl64 (1/100)) (of_int sr))"
       "0 \<le> py_int (fmul (fl64 (1/10)) (of_int sr))"
       "0 \<le> py_int (fmul (fl64 (1/5)) (of_int sr))"
    using sr default_segments_bounds by (simp_all add: py_int_fl64_nonneg)
  from adsr_length [OF this]
  obtain env where "adsr_default dur sr = Inr env"
    unfolding adsr_default_def by blast
  with False show ?thesis by simp
qed

text \<open>
  Claim C6 as stated fails: a duration of zero at 48000 Hz is not rejected, the generator
  returns the 14880 samples of attack, decay and release.
\<close>

theorem adsr_zero_duration_returns:
  "\<not> isl (adsr_default 0 48000) \<and> length (projr (adsr_default 0 48000)) = 14880"
proof -
  have t: "py_int (fmul 0 (of_int 48000)) = 0"
    by (simp add: fmul_def py_int_def)
  have "\<exists>env. adsr_default 0 48000 = Inr env \<and> int (length env) = 14880"
    unfolding adsr_default_def
    using adsr_length [of "fl64 (1/100)" 48000 "fl64 (1/10)" "fl64 (1/5)" 0 "7/10"]
    by (simp only: default_segments_48000 t) simp
  then show ?thesis by auto
qed

section \<open>Properties of the voice synthesizer\<close>

lemma slice_index_le: "slice_index n i \<le> n"
  by (auto simp: slice_index_def max_def)

lemma add_slice_length:
  "add_slice col start stop rhs = Inr col' \<Longrightarrow> length col' = length col"
  using slice_index_le [of "length col" start] slice_index_le [of "length col" stop]
  by (auto simp: add_slice_def Let_def split: if_splits)

lemma add_rows_shape:
  assumes "add_rows audio start stop rhs = Inr audio'"
  shows "length audio' = length audio"
    and "c < length audio \<Longrightarrow> length (audio' ! c) = length (audio ! c)"
proof -
  from assms have all: "list_all (\<lambda>col. \<not> isl (add_slice col start stop rhs)) audio"
    and eq: "audio' = map (\<lambda>col. projr (add_slice col start stop rhs)) audio"
    by (auto simp: add_rows_def split: if_splits)
  show "length audio' = length audio" by (simp add: eq)
  assume c: "c < length audio"
  with all have "\<not> isl (add_slice (audio ! c) start stop rhs)"
    by (simp add: list_all_length)
  then obtain col' where "add_slice (audio ! c) start stop rhs = Inr col'"
    by (cases "add_slice (audio ! c) start stop rhs") auto
  then show "length (audio' ! c) = length (audio ! c)"
    using c by (simp add: eq add_slice_length)
qed

lemma synthesize_shape:
  "length (synthesize self n audio ev d) = length audio \<and>
   (\<forall>c<length audio. length (synthesize self n audio ev d ! c) = length (audio ! c))"
  by (auto simp: synthesize_def Let_def add_rows_shape split: sum.splits)

lemma render_voices_shape:
  "length (render_voices self n evs audio) = length audio \<and>
   (\<forall>c<length audio. length (render_voices self n evs audio ! c) = length (audio ! c))"
proof (induction evs arbitrary: audio)
  case Nil
  show ?case by simp
next
  case (Cons ev evs)
  show ?case
  proof (cases "ev_type ev = ''note_on''")
    case True
    let ?a = "synthesize self n audio ev (note_duration_sec ev evs)"
    from Cons.IH [of ?a] synthesize_shape [of self n audio ev "note_duration_sec ev evs"]
    show ?thesis using True by simp
  next
    case False
    with Cons.IH [of audio] show ?thesis by simp
  qed
qed

lemma render_shape:
  assumes "0 \<le> py_int (fmul (of_int (sample_rate self)) (duration self))"
  shows "\<exists>audio. render self evs = Inr audio \<and> length audio = channels self \<and>
           (\<forall>col\<in>set audio.
              int (length col) = py_int (fmul (of_int (sample_rate self)) (duration self)))"
proof -
  let ?n = "py_int (fmul (of_int (sample_rate self)) (duration self))"
  let ?z = "replicate (channels self) (replicate (nat ?n) (0::real))"
  let ?out = "render_voices self ?n evs ?z"
  have r: "render self evs = Inr ?out"
    using assms by (simp add: render_def Let_def)
  have len: "length ?out = channels self"
    using render_voices_shape [of self ?n evs ?z] by simp
  have "\<forall>c<channels self. length (?out ! c) = nat ?n"
    using render_voices_shape [of self ?n evs ?z] by simp
  then have "\<forall>col\<in>set ?out. int (length col) = ?n"
    using len assms by (auto simp: in_set_conv_nth)
  with r len show ?thesis by blast
qed

lemma start_sample_div:
  assumes "0 \<le> ev_time ev" "0 \<le> sample_rate self"
  shows "start_sample self ev = (ev_time ev * sample_rate self) div 1000000"
proof -
  have "0 \<le> real_of_int (ev_time ev) * real_of_int (sample_rate self)"
    using assms by (intro mult_nonneg_nonneg) simp_all
  then have "0 \<le> real_of_int (ev_time ev * sample_rate self) / 1000000" by simp
  then have "start_sample self ev = \<lfloor>real_of_int (ev_time ev * sample_rate self) / real_of_int 1000000\<rfloor>"
    by (simp add: start_sample_def py_int_def)
  also have "\<dots> = (ev_time ev * sample_rate self) div 1000000"
    by (rule floor_divide_of_int_eq)
  finally show ?thesis .
qed

lemma add_slice_exact:
  assumes s0: "0 \<le> start" and ss: "start \<le> stop" and sl: "stop \<le> int (length col)"
      and r: "int (length rhs) = stop - start"
  shows "\<exists>col'. add_slice col start stop rhs = Inr col' \<and> length col' = length col \<and>
           (\<forall>i<length col. col' ! i =
              col ! i + (if start \<le> int i \<and> int i < stop then rhs ! (i - nat start) else 0))"
proof -
  let ?lo = "nat start" and ?s = "length rhs"
  have lo: "slice_index (length col) start = ?lo"
    using s0 ss sl by (simp add: slice_index_def)
  have hi: "slice_index (length col) stop = nat stop"
    using s0 ss sl by (simp add: slice_index_def)
  have s: "nat stop - ?lo = ?s" using r s0 ss by linarith
  have bound: "?lo + ?s \<le> length col" using r s0 ss sl by linarith
  let ?col' = "take ?lo col @ map2 (+) (take ?s (drop ?lo col)) rhs @ drop (?lo + ?s) col"
  have eq: "add_slice col start stop rhs = Inr ?col'"
    by (simp add: add_slice_def Let_def lo hi s)
  have len: "length ?col' = length col" using bound by simp
  have nth: "?col' ! i = col ! i + (if start \<le> int i \<and> int i < stop then rhs ! (i - ?lo) else 0)"
    if i: "i < length col" for i
  proof -
    consider "i < ?lo" | "?lo \<le> i" "i < ?lo + ?s" | "?lo + ?s \<le> i" by linarith
    then show ?thesis
    proof cases
      case 1
      then have "?col' ! i = col ! i" using bound by (simp add: nth_append)
      moreover have "\<not> start \<le> int i" using 1 s0 by linarith
      ultimately show ?thesis by simp
    next
      case 2
      then have k: "i - ?lo < ?s" by linarith
      have A: "length (take ?lo col) = ?lo" using bound by simp
      have B: "length (map2 (+) (take ?s (drop ?lo col)) rhs) = ?s" using bound by simp
      have "?col' ! i = (map2 (+) (take ?s (drop ?lo col)) rhs @ drop (?lo + ?s) col) ! (i - ?lo)"
        using 2(1) A by (metis not_less nth_append)
      also have "\<dots> = map2 (+) (take ?s (drop ?lo col)) rhs ! (i - ?lo)"
        using k B by (metis nth_append)
      also have "\<dots> = take ?s (drop ?lo col) ! (i - ?lo) + rhs ! (i - ?lo)"
        using k bound by (subst nth_map) (simp_all add: nth_zip)
      also have "take ?s (drop ?lo col) ! (i - ?lo) = col ! i"
        using 2 k bound by simp
      finally have "?col' ! i = col ! i + rhs ! (i - ?lo)" .
      moreover have "start \<le> int i \<and> int i < stop" using 2 r s0 ss by linarith
      ultimately show ?thesis by simp
    next
      case 3
      have C: "length (take ?lo col @ map2 (+) (take ?s (drop ?lo col)) rhs) = ?lo + ?s"
        using bound by simp
      have "?col' ! i =
            ((take ?lo col @ map2 (+) (take ?s (drop ?lo col)) rhs) @ drop (?lo + ?s) col) ! i"
        by simp
      also have "\<dots> = drop (?lo + ?s) col ! (i - (?lo + ?s))"
        using 3 C by (metis not_less nth_append)
      also have "\<dots> = col ! i" using 3 bound by simp
      finally have "?col' ! i = col ! i" .
      moreover have "\<not> int i < stop" using 3 r s0 ss by linarith
      ultimately show ?thesis by simp
    qed
  qed
  from eq len nth show ?thesis by blast
qed

lemma add_slice_empty:
  assumes "int (length col) \<le> start" "stop = int (length col)"
  shows "add_slice col start stop rhs = Inl ValueError \<or> add_slice col start stop rhs = Inr col"
proof -
  have lo: "slice_index (length col) start = length col"
    using assms by (simp add: slice_index_def)
  have hi: "slice_index (length col) stop = length col"
    using assms by (simp add: slice_index_def)
  show ?thesis by (simp add: add_slice_def Let_def lo hi)
qed

lemma voice_added_beyond:
  "int (length col) \<le> start \<Longrightarrow> voice_added start wave col col"
  by (simp add: voice_added_def)

lemma voice_column:
  assumes s0: "0 \<le> start" and n: "int (length col) = n"
  shows "(\<exists>col'. add_slice col start (min (start + int (length wave)) n)
                    (take (slice_index (length wave) (min (start + int (length wave)) n - start)) wave)
                  = Inr col' \<and> voice_added start wave col col')
         \<or> n < start"
proof (cases "start \<le> n")
  case False
  then show ?thesis by simp
next
  case True
  let ?stop = "min (start + int (length wave)) n"
  let ?rhs = "take (slice_index (length wave) (?stop - start)) wave"
  have k0: "0 \<le> ?stop - start" using True by simp
  have k1: "?stop - start \<le> int (length wave)" by simp
  define k where "k = ?stop - start"
  have "0 \<le> k" "k \<le> int (length wave)" using k0 k1 by (simp_all add: k_def)
  then have "slice_index (length wave) k = nat k" "int (min (length wave) (nat k)) = k"
    by (simp_all add: slice_index_def)
  then have si: "slice_index (length wave) (?stop - start) = nat (?stop - start)"
    and lr: "int (length ?rhs) = ?stop - start"
    by (simp_all add: k_def)
  have "start \<le> ?stop" using True by simp
  moreover have "?stop \<le> int (length col)" using n by simp
  ultimately obtain col' where c: "add_slice col start ?stop ?rhs = Inr col'"
      "length col' = length col"
      "\<forall>i<length col. col' ! i =
          col ! i + (if start \<le> int i \<and> int i < ?stop then ?rhs ! (i - nat start) else 0)"
    using add_slice_exact [OF s0 _ _ lr] by blast
  have "voice_added start wave col col'"
    unfolding voice_added_def
  proof (intro conjI allI impI)
    show "length col' = length col" by (rule c(2))
  next
    fix i assume i: "i < length col"
    show "col' ! i = col ! i + (if start \<le> int i \<and> int i < start + int (length wave)
                                then wave ! (i - nat start) else 0)"
    proof -
      from c(3) i have e: "col' ! i =
          col ! i + (if start \<le> int i \<and> int i < ?stop then ?rhs ! (i - nat start) else 0)"
        by blast
      show ?thesis
      proof (cases "start \<le> int i \<and> int i < ?stop")
        case True
        then have "i - nat start < nat (?stop - start)" using s0 by linarith
        then have "?rhs ! (i - nat start) = wave ! (i - nat start)"
          by (simp only: si nth_take)
        moreover from e True have "col' ! i = col ! i + ?rhs ! (i - nat start)"
          by (simp only: if_P)
        moreover from True have "start \<le> int i \<and> int i < start + int (length wave)"
          by simp
        ultimately show ?thesis by (simp only: if_P)
      next
        case False
        with e have "col' ! i = col ! i + 0" by (simp only: if_False)
        moreover from False have "\<not> (start \<le> int i \<and> int i < start + int (length wave))"
          using i n by auto
        ultimately show ?thesis by (simp only: if_False)
      qed
    qed
  qed
  with c(1) show ?thesis by blast
qed

lemma add_rows_voice:
  assumes s0: "0 \<le> start" and shape: "\<forall>col\<in>set audio. int (length col) = n"
  shows "let out = (case add_rows audio start (min (start + int (length wave)) n)
                (take (slice_index (length wave) (min (start + int (length wave)) n - start)) wave)
              of Inl e \<Rightarrow> audio | Inr audio' \<Rightarrow> audio')
         in length out = length audio \<and>
            (\<forall>c<length audio. voice_added start wave (audio ! c) (out ! c))"
proof (cases "n < start")
  case True
  let ?stop = "min (start + int (length wave)) n"
  let ?rhs = "take (slice_index (length wave) (?stop - start)) wave"
  have stop: "?stop = n" using True by simp
  have same: "projr (add_slice col start ?stop ?rhs) = col"
    if "col \<in> set audio" "\<not> isl (add_slice col start ?stop ?rhs)" for col
  proof -
    from that shape have "int (length col) \<le> start" "?stop = int (length col)"
      using True by auto
    from add_slice_empty [OF this, of ?rhs] that(2) show ?thesis by auto
  qed
  have unchanged: "(case add_rows audio start ?stop ?rhs of Inl e \<Rightarrow> audio | Inr a \<Rightarrow> a) = audio"
  proof (cases "list_all (\<lambda>col. \<not> isl (add_slice col start ?stop ?rhs)) audio")
    case False
    then show ?thesis by (simp add: add_rows_def)
  next
    case all: True
    then have "map (\<lambda>col. projr (add_slice col start ?stop ?rhs)) audio = map (\<lambda>col. col) audio"
      using same by (intro map_cong) (auto simp: list_all_iff)
    with all show ?thesis by (simp add: add_rows_def)
  qed
  have "\<forall>c<length audio. voice_added start wave (audio ! c) (audio ! c)"
    using shape True by (auto intro!: voice_added_beyond)
  with unchanged show ?thesis by (simp add: Let_def)
next
  case False
  let ?stop = "min (start + int (length wave)) n"
  let ?rhs = "take (slice_index (length wave) (?stop - start)) wave"
  have col: "\<exists>col'. add_slice col start ?stop ?rhs = Inr col' \<and> voice_added start wave col col'"
    if "col \<in> set audio" for col
    using voice_column [OF s0, of col n wave] shape that False by auto
  have "\<not> isl (add_slice col start ?stop ?rhs)" if "col \<in> set audio" for col
    using col [OF that] by auto
  then have all: "list_all (\<lambda>col. \<not> isl (add_slice col start ?stop ?rhs)) audio"
    by (simp add: list_all_iff)
  then have r: "add_rows audio start ?stop ?rhs =
                Inr (map (\<lambda>col. projr (add_slice col start ?stop ?rhs)) audio)"
    by (simp add: add_rows_def)
  have "voice_added start wave (audio ! c) (projr (add_slice (audio ! c) start ?stop ?rhs))"
    if "c < length audio" for c
    using col [of "audio ! c"] that by auto
  with r show ?thesis by (simp add: Let_def)
qed

text \<open>
  Claim C7 (start offset and clipped write of a voice), as the code has it. For an event
  time and a sample rate that are not negative, the start offset of the voice is
  \<open>eventTimeMicros * sampleRate\<close> divided by \<open>10\<^sup>6\<close> and truncated (not rounded). The
  additive write keeps the shape of the master buffer, so nothing is written outside it:
  sample \<open>i\<close> of every channel receives sample \<open>i - start\<close> of the waveform when
  \<open>start \<le> i < start + length wave\<close> and is unchanged otherwise; a voice whose synthesis
  fails leaves the buffer as it was.
\<close>

theorem voice_offset_truncated_and_write_clipped:
  assumes t: "0 \<le> ev_time ev" and sr: "0 \<le> sample_rate self"
      and shape: "\<forall>col\<in>set audio. int (length col) = num_samples"
  shows "start_sample self ev = (ev_time ev * sample_rate self) div 1000000 \<and>
         length (synthesize self num_samples audio ev d) = length audio \<and>
         (\<forall>c<length audio.
            length (synthesize self num_samples audio ev d ! c) = length (audio ! c)) \<and>
         (\<forall>wave. synthesize_note self (440 * 2 powr (of_int (ev_note ev - 69) / 12)) d
                    (ev_velocity ev) = Inr wave \<longrightarrow>
            (\<forall>c<length audio. \<forall>i<length (audio ! c).
               synthesize self num_samples audio ev d ! c ! i =
                 audio ! c ! i +
                 (if start_sample self ev \<le> int i \<and>
                     int i < start_sample self ev + int (length wave)
                  then wave ! (i - nat (start_sample self ev)) else 0))) \<and>
         (isl (synthesize_note self (440 * 2 powr (of_int (ev_note ev - 69) / 12)) d
                 (ev_velocity ev)) \<longrightarrow>
            synthesize self num_samples audio ev d = audio)"
proof -
  let ?start = "start_sample self ev"
  let ?out = "synthesize self num_samples audio ev d"
  let ?note = "synthesize_note self (440 * 2 powr (of_int (ev_note ev - 69) / 12)) d
                 (ev_velocity ev)"
  have offs: "?start = (ev_time ev * sample_rate self) div 1000000"
    using t sr by (rule start_sample_div)
  have s0: "0 \<le> ?start"
    using t sr by (simp add: offs pos_imp_zdiv_nonneg_iff)
  have shp: "length ?out = length audio \<and> (\<forall>c<length audio. length (?out ! c) = length (audio ! c))"
    by (rule synthesize_shape)
  have fail: "isl ?note \<longrightarrow> ?out = audio"
    by (cases ?note) (simp_all add: synthesize_def Let_def)
  have ok: "\<forall>c<length audio. \<forall>i<length (audio ! c).
              ?out ! c ! i = audio ! c ! i +
                (if ?start \<le> int i \<and> int i < ?start + int (length wave)
                 then wave ! (i - nat ?start) else 0)"
    if w: "?note = Inr wave" for wave
  proof -
    let ?stop = "min (?start + int (length wave)) num_samples"
    let ?rhs = "take (slice_index (length wave) (?stop - ?start)) wave"
    have out: "?out = (case add_rows audio ?start ?stop ?rhs of Inl e \<Rightarrow> audio | Inr a \<Rightarrow> a)"
      by (simp only: synthesize_def Let_def w sum.case)
    from add_rows_voice [OF s0 shape, of wave]
    have "\<forall>c<length audio. voice_added ?start wave (audio ! c) (?out ! c)"
      by (simp add: Let_def out)
    then show ?thesis by (simp add: voice_added_def)
  qed
  from offs shp fail ok show ?thesis by blast
qed

theorem voice_offset_truncated_and_write_clipped_witness:
  "0 \<le> ev_time ex_note_on \<and> 0 \<le> sample_rate ex_synth \<and>
   list_all (\<lambda>col. int (length col) = 4) [[0, 0, 0, 0]] \<and>
   start_sample ex_synth ex_note_on = 2 \<and>
   length (synthesize ex_synth 4 [[0, 0, 0, 0]] ex_note_on (1/2)) = 1"
  using voice_offset_truncated_and_write_clipped [of ex_note_on ex_synth "[[0, 0, 0, 0]]" 4 "1/2"]
  by (simp add: ex_synth_def ex_note_on_def)

text \<open>
  Claim C7 as stated fails: for a note-on at 700 microseconds and 44100 Hz the offset is
  30, the truncation of 30.87, and not the rounded value 31.
\<close>

theorem start_offset_not_rounded:
  "start_sample \<lparr>sample_rate = 44100, channels = 2, duration = 1, mode = ''adsr''\<rparr>
     \<lparr>ev_type = ''note_on'', ev_note = 60, ev_velocity = 100, ev_time = 700,
      ev_channel = 0, ev_value = 0\<rparr> = 30 \<and>
   round (700 / 1000000 * 44100 :: real) = 31"
  by (simp add: start_sample_def py_int_def round_def)

text \<open>
  For a sample rate and a duration that are not negative, the synthesizer of a single note
  returns a waveform of as many samples as the float64 product of duration and sample
  rate, truncated: the envelope is never shorter than the tone, and is trimmed to it.
\<close>

lemma synthesize_note_returns:
  assumes sr: "0 \<le> sample_rate self" and dur: "0 \<le> dur"
  shows "\<exists>wave. synthesize_note self freq dur velocity = Inr wave \<and>
           int (length wave) = \<lfloor>fmul dur (of_int (sample_rate self))\<rfloor>"
proof -
  let ?sr = "sample_rate self"
  let ?N = "py_int (fmul dur (of_int ?sr))"
  have "0 \<le> dur * of_int ?sr" using sr dur by simp
  then have nn: "0 \<le> fmul dur (of_int ?sr)" unfolding fmul_def by (rule fl64_nonneg)
  then have N: "?N = \<lfloor>fmul dur (of_int ?sr)\<rfloor>" "0 \<le> ?N" by (simp_all add: py_int_def)
  obtain t where t: "linspace 0 dur ?N False = Inr t" "length t = nat ?N"
    using linspace_ok [OF N(2)] by blast
  have "- 5 < ?sr" using sr by simp
  then have seg: "0 \<le> py_int (fmul (fl64 (1/100)) (of_int ?sr))"
       "0 \<le> py_int (fmul (fl64 (1/10)) (of_int ?sr))"
       "0 \<le> py_int (fmul (fl64 (1/5)) (of_int ?sr))"
    using default_segments_bounds by (simp_all add: py_int_fl64_nonneg)
  from adsr_length [OF seg, of dur "7/10"]
  obtain env where env: "adsr_default dur ?sr = Inr env" "?N \<le> int (length env)"
    unfolding adsr_default_def by auto
  let ?tone = "map (\<lambda>ti. sin (2 * pi * freq * ti)) t"
  let ?m = "min (length ?tone) (length env)"
  let ?wave = "map2 (\<lambda>x g. x * g * (of_int velocity / 127))
                 (if length ?tone \<noteq> length env then take ?m ?tone else ?tone)
                 (if length ?tone \<noteq> length env then take ?m env else env)"
  have r: "synthesize_note self freq dur velocity = Inr ?wave"
    by (simp only: synthesize_note_def Let_def t env sum.case)
  have le: "nat ?N \<le> length env" using env(2) by linarith
  have "length ?wave = nat ?N" using t(2) le by (auto simp: min_def)
  then have "int (length ?wave) = ?N" using N(2) by (simp only: int_nat_eq if_True)
  then have "int (length ?wave) = \<lfloor>fmul dur (of_int ?sr)\<rfloor>" by (simp only: N(1))
  with r show ?thesis by blast
qed

text \<open>A note of 0.35 s at 44100 Hz has 15434 samples, one less than the exact product.\<close>

lemma note_035_samples:
  "\<lfloor>fmul (fl64 (35/100)) (of_int 44100)\<rfloor> = 15434" "\<lfloor>(35/100 :: real) * 44100\<rfloor> = 15435"
proof -
  have a: "fl64 (35/100) = 3152519739159347 / 9007199254740992"
    by (subst fl64_eval [of _ 54]) (simp_all add: round_even_def)
  have b: "fl64 (3152519739159347 / 9007199254740992 * 44100)
             = 8485480987361279 / 549755813888"
    by (subst fl64_eval [of _ 39]) (simp_all add: round_even_def)
  show "\<lfloor>fmul (fl64 (35/100)) (of_int 44100)\<rfloor> = 15434"
    by (simp only: fmul_def a of_int_numeral b) simp
  show "\<lfloor>(35/100 :: real) * 44100\<rfloor> = 15435" by simp
qed

section \<open>Properties of the orchestrator\<close>

lemma last_time_init:
  assumes "evs \<noteq> []"
  shows "ev_time (last (map (\<lambda>e. if ev_type e = ''tempo'' then e\<lparr>ev_value := tempo\<rparr> else e)
            (map (\<lambda>e. e\<lparr>ev_note := ev_note e + tr\<rparr>) evs))) = ev_time (last evs)"
  using assms by (simp add: last_map)

lemma conv_duration_init:
  "conv_duration (UniversalConverter_init evs sr ch dflt target tr tempo) =
     (if evs = [] then dflt
      else max dflt (fadd (fdiv (of_int (ev_time (last evs))) 1000000) (1/2)))"
  using last_time_init [of evs tempo tr]
  by (simp add: UniversalConverter_init_def Let_def)

lemma generate_waveform_shape:
  assumes sr: "0 < sr" and dflt: "0 < dflt"
  shows "\<exists>audio. generate_waveform (UniversalConverter_init evs sr ch dflt target tr tempo)
                    = Inr audio \<and>
            length audio = ch \<and>
            (\<forall>col\<in>set audio. int (length col) =
               \<lfloor>fmul (of_int sr)
                  (conv_duration (UniversalConverter_init evs sr ch dflt target tr tempo))\<rfloor>)"
proof -
  let ?c = "UniversalConverter_init evs sr ch dflt target tr tempo"
  have "0 < conv_duration ?c"
    using dflt by (auto simp: conv_duration_init max_def)
  then have "0 \<le> real_of_int sr * conv_duration ?c" using sr by simp
  then have pos: "0 \<le> fmul (of_int sr) (conv_duration ?c)"
    unfolding fmul_def by (rule fl64_nonneg)
  then have n: "py_int (fmul (of_int sr) (conv_duration ?c)) =
                \<lfloor>fmul (of_int sr) (conv_duration ?c)\<rfloor>"
    by (simp add: py_int_def)
  let ?s = "\<lparr>sample_rate = sr, channels = ch, duration = conv_duration ?c, mode = ''adsr''\<rparr>"
  have fields: "conv_sample_rate ?c = sr" "conv_channels ?c = ch"
    by (simp_all add: UniversalConverter_init_def Let_def)
  have "0 \<le> py_int (fmul (of_int (sample_rate ?s)) (duration ?s))"
    using pos n by simp
  from render_shape [OF this, of "midi_events ?c"]
  show ?thesis using n by (simp add: generate_waveform_def fields)
qed

text \<open>
  Claim C10 (render duration and shape of the master buffer), as the code has it. For a
  positive sample rate and default duration, the render duration is the default duration
  for an empty event sequence and \<open>max(defaultDurationSec, lastEventTimeMicros / 10\<^sup>6 + 0.5)\<close>
  otherwise, the quotient and the sum each rounded to float64; synthesis returns a master
  buffer of \<open>channels\<close> columns, each with as many rows as the float64 product of sample
  rate and duration, truncated.
\<close>

theorem render_duration_and_shape:
  assumes sr: "0 < sr" and dflt: "0 < dflt"
  shows "conv_duration (UniversalConverter_init evs sr ch dflt target tr tempo) =
           (if evs = [] then dflt
            else max dflt (fadd (fdiv (of_int (ev_time (last evs))) 1000000) (1/2))) \<and>
         (\<exists>audio. generate_waveform (UniversalConverter_init evs sr ch dflt target tr tempo)
                    = Inr audio \<and>
            length audio = ch \<and>
            (\<forall>col\<in>set audio. int (length col) =
               \<lfloor>fmul (of_int sr)
                  (conv_duration (UniversalConverter_init evs sr ch dflt target tr tempo))\<rfloor>))"
  using conv_duration_init [of evs sr ch dflt target tr tempo]
    generate_waveform_shape [OF sr dflt, of evs ch target tr tempo]
  by (rule conjI)

lemma fl64_half: "fl64 (1/2) = 1/2"
  by (subst fl64_eval [of _ 53]) (simp_all add: round_even_def)

theorem render_duration_and_shape_witness:
  "(0::int) < 44100 \<and> (0::real) < 1 \<and>
   conv_duration (UniversalConverter_init ex_events 44100 2 1 None 0 120) = 1 \<and>
   (\<exists>audio. generate_waveform (UniversalConverter_init ex_events 44100 2 1 None 0 120) = Inr audio \<and>
      length audio = 2 \<and> (\<forall>col\<in>set audio. int (length col) = 44100))"
proof -
  have ne: "ex_events \<noteq> []" "ev_time (last ex_events) = 500000"
    by (simp_all add: ex_events_def)
  have fl: "fadd (fdiv (of_int 500000) 1000000) (1/2) = 1"
    by (simp add: fadd_def fdiv_def fl64_half)
  have pos: "(0::int) < 44100" "(0::real) < 1" by simp_all
  note R = render_duration_and_shape [OF pos, of ex_events 2 None 0 120]
  have d: "conv_duration (UniversalConverter_init ex_events 44100 2 1 None 0 120) = 1"
    using R [THEN conjunct1] ne fl by simp
  have rows: "\<lfloor>fmul (of_int 44100) 1\<rfloor> = 44100"
    by (simp add: fmul_def fl64_numeral)
  have "\<exists>audio. generate_waveform (UniversalConverter_init ex_events 44100 2 1 None 0 120)
                  = Inr audio \<and> length audio = 2 \<and>
           (\<forall>col\<in>set audio. int (length col) =
              \<lfloor>fmul (of_int 44100)
                 (conv_duration (UniversalConverter_init ex_events 44100 2 1 None 0 120))\<rfloor>)"
    using R [THEN conjunct2] .
  then show ?thesis by (simp only: d rows) simp
qed

text \<open>
  The float64 arithmetic of a render whose last event is at 570000 microseconds, at
  44100 Hz: the duration is \<open>1.0699999999999998\<close> and its product with the sample rate is
  \<open>47186.99999999999\<close>.
\<close>

lemma late_event_duration:
  "fadd (fdiv (of_int 570000) 1000000) (1/2) = 2409425800643215 / 2251799813685248"
proof -
  have a: "fl64 (57/100) = 5134103575202365 / 9007199254740992"
    by (subst fl64_eval [of _ 53]) (simp_all add: round_even_def)
  have b: "fl64 (9637703202572861 / 9007199254740992) = 2409425800643215 / 2251799813685248"
    by (subst fl64_eval [of _ 52]) (simp_all add: round_even_def)
  have "fdiv (of_int 570000) 1000000 = 5134103575202365 / 9007199254740992"
    by (simp add: fdiv_def a)
  moreover have "(5134103575202365 / 9007199254740992 + 1/2 :: real) =
                 9637703202572861 / 9007199254740992"
    by simp
  ultimately show ?thesis by (simp only: fadd_def b)
qed

lemma late_event_rows:
  "\<lfloor>fmul (of_int 44100) (2409425800643215 / 2251799813685248)\<rfloor> = 47186"
proof -
  have "(44100 * (2409425800643215 / 2251799813685248) :: real) =
        26563919452091445375 / 562949953421312"
    by simp
  moreover have "fl64 (26563919452091445375 / 562949953421312) =
                 6485331897483263 / 137438953472"
    by (subst fl64_eval [of _ 37]) (simp_all add: round_even_def)
  ultimately have e: "fmul (of_int 44100) (2409425800643215 / 2251799813685248) =
                      6485331897483263 / 137438953472"
    by (simp only: fmul_def of_int_numeral)
  show ?thesis unfolding e by simp
qed

text \<open>
  Claim C10 as stated fails: for one note that ends at 570000 microseconds, at 44100 Hz
  with two channels and a default duration of one second, the master buffer has 47186
  rows, one less than the floor 47187 of the exact \<open>44100 * max(1, 0.57 + 0.5)\<close>.
\<close>

theorem render_rows_below_exact_floor:
  "map length (projr (generate_waveform
      (UniversalConverter_init ex_late_events 44100 2 1 None 0 120))) = [47186, 47186] \<and>
   \<lfloor>real_of_int 44100 * max 1 (real_of_int 570000 / 1000000 + 1/2)\<rfloor> = 47187"
proof -
  let ?c = "UniversalConverter_init ex_late_events 44100 2 1 None 0 120"
  have ne: "ex_late_events \<noteq> []" "ev_time (last ex_late_events) = 570000"
    by (simp_all add: ex_late_events_def)
  have "conv_duration ?c = max 1 (fadd (fdiv (of_int 570000) 1000000) (1/2))"
    using ne by (simp only: conv_duration_init if_False)
  also have "\<dots> = max 1 (2409425800643215 / 2251799813685248)"
    by (simp only: late_event_duration)
  also have "\<dots> = 2409425800643215 / 2251799813685248" by simp
  finally have d: "conv_duration ?c = 2409425800643215 / 2251799813685248" .
  have pos: "(0::int) < 44100" "(0::real) < 1" by simp_all
  from generate_waveform_shape [OF pos, of ex_late_events 2 None 0 120]
  obtain audio where a: "generate_waveform ?c = Inr audio" "length audio = 2"
      "\<forall>col\<in>set audio. int (length col) = 47186"
    by (auto simp only: d late_event_rows)
  from a(2) obtain c1 c2 where audio: "audio = [c1, c2]"
    by (cases audio; cases "tl audio"; cases "tl (tl audio)") auto
  with a(3) have "map length audio = [47186, 47186]" by simp
  with a(1) show ?thesis by simp
qed

lemma collect_map_Inr:
  "(\<And>x. x \<in> set xs \<Longrightarrow> f x = Inr (g x)) \<Longrightarrow> collect (map f xs) = Inr (map g xs)"
  by (induction xs) simp_all

lemma resample_poly_same:
  assumes "1 \<le> k"
  shows "resample_poly interp x k k = Inr x"
  using assms by (simp add: resample_poly_def Let_def)

lemma resample_poly_length:
  assumes up: "1 \<le> up" and down: "1 \<le> down" and len: "int (length x) = down"
  shows "\<exists>r. resample_poly interp x up down = Inr r \<and> int (length r) = up"
proof -
  define g where "g = gcd up down"
  have g: "0 < g" using up by (simp add: g_def)
  obtain u where u: "up = u * g" using g_def by (metis dvd_def gcd_dvd1 mult.commute)
  obtain d where d: "down = d * g" using g_def by (metis dvd_def gcd_dvd2 mult.commute)
  have "0 < u * g" using up u by linarith
  then have u0: "0 < u" using g by (simp add: zero_less_mult_iff)
  have "0 < d * g" using down d by linarith
  then have d0: "0 < d" using g by (simp add: zero_less_mult_iff)
  have ud: "up div g = u" "down div g = d" using g u d by simp_all
  have "nat (int (length x)) = nat (d * g)" using len d by simp
  then have lx: "length x = nat d * nat g" using d0 by (simp add: nat_mult_distrib)
  have ok: "\<not> (up < 1 \<or> down < 1)" using up down by linarith
  show ?thesis
  proof (cases "nat u = 1 \<and> nat d = 1")
    case True
    then have "u = 1" "d = 1" using u0 d0 by linarith+
    then have "int (length x) = up" using u d len by simp
    moreover have "resample_poly interp x up down = Inr x"
      using True by (simp add: resample_poly_def Let_def ok g_def [symmetric] ud)
    ultimately show ?thesis by simp
  next
    case False
    have e: "length x * nat u = nat d * (nat g * nat u)" by (simp only: lx mult.assoc)
    have nd: "0 < nat d" using d0 by simp
    have dv: "(length x * nat u) div nat d = nat g * nat u"
      unfolding e using nd by (rule nonzero_mult_div_cancel_left [OF less_imp_neq [THEN not_sym]])
    have md: "(length x * nat u) mod nat d = 0"
      unfolding e by (rule mod_mult_self1_is_0)
    have up_eq: "int (nat g * nat u) = up" using u u0 g by (simp add: mult.commute)
    have "resample_poly interp x up down =
            Inr (map (interp x (nat u) (nat d)) [0..<nat g * nat u])"
      using False by (auto simp: resample_poly_def Let_def ok g_def [symmetric] ud dv md)
    with up_eq show ?thesis by simp
  qed
qed

lemma time_stretch_ok:
  assumes ne: "p \<noteq> []" and shape: "\<forall>col\<in>set p. length col = n" and n: "0 < n"
      and cur: "0 < fdiv (real n) (of_int (conv_sample_rate self))"
      and m: "1 \<le> py_int (fmul (real n)
                       (fdiv target (fdiv (real n) (of_int (conv_sample_rate self)))))"
  shows "\<exists>out. time_stretch interp self p target = Inr out \<and> length out = length p \<and>
           (\<forall>col\<in>set out. int (length col) =
              py_int (fmul (real n)
                (fdiv target (fdiv (real n) (of_int (conv_sample_rate self)))))) \<and>
           (py_int (fmul (real n)
              (fdiv target (fdiv (real n) (of_int (conv_sample_rate self))))) = int n
            \<longrightarrow> out = p)"
proof -
  let ?sr = "conv_sample_rate self"
  let ?cur = "fdiv (real n) (of_int ?sr)"
  let ?m = "py_int (fmul (real n) (fdiv target ?cur))"
  have rows: "num_rows p = n"
    using ne shape by (cases p) (simp_all add: num_rows_def)
  have c1: "(conv_sample_rate self = 0) = False"
  proof -
    have "?sr \<noteq> 0"
    proof
      assume "?sr = 0"
      then have "?cur = 0" by (simp add: fdiv_def)
      with cur show False by simp
    qed
    then show ?thesis by simp
  qed
  have c2: "(?cur \<le> 0) = False" using cur by simp
  have c3: "(?m < 0) = False" using m by simp
  have each: "\<exists>r. resample_poly interp col ?m (int n) = Inr r \<and> int (length r) = ?m"
    if "col \<in> set p" for col
    using resample_poly_length [OF m, of "int n" col interp] that shape n by simp
  define g where "g col = projr (resample_poly interp col ?m (int n))" for col
  have g: "resample_poly interp col ?m (int n) = Inr (g col)" "int (length (g col)) = ?m"
    if "col \<in> set p" for col
    using each [OF that] by (auto simp: g_def)
  have coll: "collect (map (\<lambda>col. case resample_poly interp col ?m (int n) of
                               Inl e \<Rightarrow> Inl e
                             | Inr r \<Rightarrow> if int (length r) = ?m then Inr r else Inl ValueError) p)
        = Inr (map g p)"
    by (rule collect_map_Inr) (simp add: g)
  have res: "time_stretch interp self p target = Inr (map g p)"
    unfolding time_stretch_def Let_def rows c1 c2 c3 if_False by (rule coll)
  have lens: "\<forall>col\<in>set (map g p). int (length col) = ?m"
    using g(2) by auto
  have same: "map g p = p" if "?m = int n"
  proof -
    have "g col = col" if "col \<in> set p" for col
      using g(1) [OF that] resample_poly_same [of "int n" interp col] n \<open>?m = int n\<close> by simp
    then show ?thesis by (simp add: map_idI)
  qed
  from res lens same show ?thesis by auto
qed

text \<open>
  When the whole number of seconds of the target is the current duration, the new number
  of samples is the old one.
\<close>

lemma time_stretch_same_duration:
  assumes t: "of_int t = fdiv (real n) (of_int sr)" and t0: "0 < t" and n: "n < 2 ^ 53"
  shows "py_int (fmul (real n) (fdiv (of_int t) (fdiv (real n) (of_int sr)))) = int n"
proof -
  have "fdiv (of_int t) (fdiv (real n) (of_int sr)) = fl64 (real_of_int t / real_of_int t)"
    by (simp only: t [symmetric]) (simp only: fdiv_def)
  also have "\<dots> = 1" using t0 by simp
  finally have "fmul (real n) (fdiv (of_int t) (fdiv (real n) (of_int sr))) = fl64 (real n)"
    by (simp add: fmul_def)
  also have "\<dots> = real n" using n by (rule fl64_of_nat)
  finally show ?thesis by (simp add: py_int_def)
qed

text \<open>
  Claim C8 (time-stretch), as the code has it. Time-stretch runs whenever a target length
  is configured, not only when it differs from the current duration. For a buffer of
  \<open>n > 0\<close> samples whose current duration is positive it resamples each channel to exactly
  \<open>int(currentSamples * (targetDurationSec / currentDurationSec))\<close> samples, the float64
  result truncated (not rounded), provided that number is at least one. When the target
  duration equals the current duration this number is the current number of samples and
  the buffer comes back unchanged; without a target length the buffer is passed on as it
  is.
\<close>

theorem time_stretch_truncated_length:
  assumes ne: "p \<noteq> []" and shape: "\<forall>col\<in>set p. length col = n" and n: "0 < n"
      and cur: "0 < fdiv (real n) (of_int (conv_sample_rate self))"
  shows "(\<forall>target.
            1 \<le> py_int (fmul (real n)
                   (fdiv target (fdiv (real n) (of_int (conv_sample_rate self))))) \<longrightarrow>
            (\<exists>out. time_stretch interp self p target = Inr out \<and> length out = length p \<and>
               (\<forall>col\<in>set out. int (length col) =
                  py_int (fmul (real n)
                    (fdiv target (fdiv (real n) (of_int (conv_sample_rate self)))))))) \<and>
         (target_length_sec self = None \<longrightarrow> convert_time_stretch interp self p = Inr p) \<and>
         (\<forall>t. target_length_sec self = Some t \<and>
               1 \<le> py_int (fmul (real n)
                      (fdiv (of_int t) (fdiv (real n) (of_int (conv_sample_rate self))))) \<longrightarrow>
            (\<exists>out. convert_time_stretch interp self p = Inr out \<and> length out = length p \<and>
               (\<forall>col\<in>set out. int (length col) =
                  py_int (fmul (real n)
                    (fdiv (of_int t) (fdiv (real n) (of_int (conv_sample_rate self)))))))) \<and>
         (\<forall>t. target_length_sec self = Some t \<and> 0 < t \<and> n < 2 ^ 53 \<and>
               of_int t = fdiv (real n) (of_int (conv_sample_rate self)) \<longrightarrow>
            convert_time_stretch interp self p = Inr p)"
proof (intro conjI allI impI)
  fix target :: real
  assume "1 \<le> py_int (fmul (real n)
                 (fdiv target (fdiv (real n) (of_int (conv_sample_rate self)))))"
  from time_stretch_ok [OF ne shape n cur this, of interp]
  show "\<exists>out. time_stretch interp self p target = Inr out \<and> length out = length p \<and>
               (\<forall>col\<in>set out. int (length col) =
                  py_int (fmul (real n)
                    (fdiv target (fdiv (real n) (of_int (conv_sample_rate self))))))"
    by blast
next
  assume "target_length_sec self = None"
  then show "convert_time_stretch interp self p = Inr p"
    by (simp add: convert_time_stretch_def)
next
  fix t :: int
  assume t: "target_length_sec self = Some t \<and>
             1 \<le> py_int (fmul (real n)
                    (fdiv (of_int t) (fdiv (real n) (of_int (conv_sample_rate self)))))"
  then have "1 \<le> py_int (fmul (real n)
                    (fdiv (of_int t) (fdiv (real n) (of_int (conv_sample_rate self)))))"
    by simp
  from time_stretch_ok [OF ne shape n cur this, of interp] t
  show "\<exists>out. convert_time_stretch interp self p = Inr out \<and> length out = length p \<and>
               (\<forall>col\<in>set out. int (length col) =
                  py_int (fmul (real n)
                    (fdiv (of_int t) (fdiv (real n) (of_int (conv_sample_rate self))))))"
    by (auto simp: convert_time_stretch_def)
next
  fix t :: int
  assume t: "target_length_sec self = Some t \<and> 0 < t \<and> n < 2 ^ 53 \<and>
             of_int t = fdiv (real n) (of_int (conv_sample_rate self))"
  then have same: "py_int (fmul (real n)
                     (fdiv (of_int t) (fdiv (real n) (of_int (conv_sample_rate self))))) = int n"
    by (intro time_stretch_same_duration) simp_all
  then have "1 \<le> py_int (fmul (real n)
                    (fdiv (of_int t) (fdiv (real n) (of_int (conv_sample_rate self)))))"
    using n by simp
  from time_stretch_ok [OF ne shape n cur this, of interp] same
  have "time_stretch interp self p (of_int t) = Inr p" by auto
  with t show "convert_time_stretch interp self p = Inr p"
    by (simp add: convert_time_stretch_def)
qed

lemma fl64_quarter: "fl64 (1/4) = 1/4"
  by (subst fl64_eval [of _ 54]) (simp_all add: round_even_def)

theorem time_stretch_truncated_length_witness:
  "[[0, 0, 0, 0, 0, 0, 0, 0]] \<noteq> ([] :: pcm) \<and>
   list_all (\<lambda>col. length col = 8) [[0, 0, 0, 0, 0, 0, 0, 0 :: real]] \<and> (0::nat) < 8 \<and>
   0 < fdiv (real 8) (of_int (conv_sample_rate ex_converter)) \<and>
   1 \<le> py_int (fmul (real 8)
          (fdiv (1/2) (fdiv (real 8) (of_int (conv_sample_rate ex_converter))))) \<and>
   (\<exists>out. time_stretch zero_interp ex_converter [[0, 0, 0, 0, 0, 0, 0, 0]] (1/2) = Inr out \<and>
      length out = 1 \<and> (\<forall>col\<in>set out. int (length col) = 2)) \<and>
   target_length_sec (ex_converter\<lparr>target_length_sec := None\<rparr>) = None \<and>
   convert_time_stretch zero_interp (ex_converter\<lparr>target_length_sec := None\<rparr>)
     [[0, 0, 0, 0, 0, 0, 0, 0]] = Inr [[0, 0, 0, 0, 0, 0, 0, 0]] \<and>
   target_length_sec ex_converter = Some 2 \<and> (0::int) < 2 \<and> (8::nat) < 2 ^ 53 \<and>
   of_int 2 = fdiv (real 8) (of_int (conv_sample_rate ex_converter)) \<and>
   convert_time_stretch zero_interp ex_converter [[0, 0, 0, 0, 0, 0, 0, 0]]
     = Inr [[0, 0, 0, 0, 0, 0, 0, 0]]"
proof -
  let ?p = "[[0, 0, 0, 0, 0, 0, 0, 0 :: real]]"
  let ?none = "ex_converter\<lparr>target_length_sec := None\<rparr>"
  have sr: "conv_sample_rate ex_converter = 4" "conv_sample_rate ?none = 4"
    by (simp_all add: ex_converter_def)
  have cur: "fdiv (real 8) (of_int 4) = 2"
    by (simp add: fdiv_def fl64_numeral)
  have new: "py_int (fmul (real 8) (fdiv (1/2) 2)) = 2"
    by (simp add: fmul_def fdiv_def fl64_quarter fl64_numeral py_int_def)
  have h3: "?p \<noteq> []" "\<forall>col\<in>set ?p. length col = 8" "(0::nat) < 8"
    by simp_all
  have h4: "0 < fdiv (real 8) (of_int (conv_sample_rate ex_converter))"
    unfolding sr cur by simp
  have h': "0 < fdiv (real 8) (of_int (conv_sample_rate ?none))"
    unfolding sr cur by simp
  note h = h3 h4
  note T = time_stretch_truncated_length [OF h, of zero_interp]
  note T' = time_stretch_truncated_length [OF h(1-3) h', of zero_interp]
  have f: "1 \<le> py_int (fmul (real 8)
             (fdiv (1/2) (fdiv (real 8) (of_int (conv_sample_rate ex_converter)))))"
    unfolding sr cur new by simp
  have a: "\<exists>out. time_stretch zero_interp ex_converter ?p (1/2) = Inr out \<and>
      length out = 1 \<and> (\<forall>col\<in>set out. int (length col) = 2)"
    using T [THEN conjunct1, rule_format, OF f] unfolding sr cur new by simp
  have n: "target_length_sec ?none = None" by simp
  have b: "convert_time_stretch zero_interp ?none ?p = Inr ?p"
    using T' [THEN conjunct2, THEN conjunct1, rule_format, OF n] .
  have t: "target_length_sec ex_converter = Some 2 \<and> (0::int) < 2 \<and> (8::nat) < 2 ^ 53 \<and>
           of_int 2 = fdiv (real 8) (of_int (conv_sample_rate ex_converter))"
    unfolding sr cur by (simp add: ex_converter_def)
  have c: "convert_time_stretch zero_interp ex_converter ?p = Inr ?p"
    using T [THEN conjunct2, THEN conjunct2, THEN conjunct2, rule_format, OF t] .
  from h f a n b t c show ?thesis by simp
qed

text \<open>
  The float64 arithmetic of a stretch of 45864 samples at 44100 Hz to one second: the
  current duration is \<open>1.04\<close>, the ratio \<open>0.9615384615384615\<close> and the product
  \<open>44099.99999999999\<close>.
\<close>

lemma stretch_to_1s_current:
  "fdiv (real 45864) (of_int 44100) = 1170935903116329 / 1125899906842624"
proof -
  have "fl64 (26/25) = 1170935903116329 / 1125899906842624"
    by (subst fl64_eval [of _ 52]) (simp_all add: round_even_def)
  then show ?thesis by (simp add: fdiv_def)
qed

lemma stretch_to_1s_samples:
  "py_int (fmul (real 45864) (fdiv (of_int 1) (1170935903116329 / 1125899906842624))) = 44099"
proof -
  have "fl64 (1125899906842624 / 1170935903116329) = 4330384257087015 / 4503599627370496"
    by (subst fl64_eval [of _ 53]) (simp_all add: round_even_def)
  then have r: "fdiv (of_int 1) (1170935903116329 / 1125899906842624) =
                4330384257087015 / 4503599627370496"
    by (simp add: fdiv_def)
  have "(45864 * (4330384257087015 / 4503599627370496) :: real) =
        24826092945879856995 / 562949953421312"
    by simp
  moreover have "fl64 (24826092945879856995 / 562949953421312) =
                 6061057848115199 / 137438953472"
    by (subst fl64_eval [of _ 37]) (simp_all add: round_even_def)
  ultimately have e: "fmul (real 45864) (4330384257087015 / 4503599627370496) =
                      6061057848115199 / 137438953472"
    by (simp add: fmul_def)
  show ?thesis unfolding r e py_int_def by simp
qed

text \<open>
  Claim C8 as stated fails: a buffer of 45864 samples at 44100 Hz, stretched to the target
  length of one second, has 44099 samples, the truncation of the float64 product, where
  the claim's rounding gives 44100.
\<close>

theorem time_stretch_not_rounded:
  "map length (projr (convert_time_stretch zero_interp ex_converter_1s [replicate 45864 0]))
     = [44099] \<and>
   round (45864 * 1 / (45864 / 44100) :: real) = 44100"
proof -
  let ?p = "[replicate 45864 (0::real)]"
  have sr: "conv_sample_rate ex_converter_1s = 44100"
    and t: "target_length_sec ex_converter_1s = Some 1"
    by (simp_all add: ex_converter_1s_def)
  have h: "?p \<noteq> []" "\<forall>col\<in>set ?p. length col = 45864" "(0::nat) < 45864"
    by simp_all
  have cur: "0 < fdiv (real 45864) (of_int (conv_sample_rate ex_converter_1s))"
    unfolding sr stretch_to_1s_current by simp
  have new: "py_int (fmul (real 45864)
               (fdiv (of_int 1)
                  (fdiv (real 45864) (of_int (conv_sample_rate ex_converter_1s))))) = 44099"
    by (simp only: sr stretch_to_1s_current stretch_to_1s_samples)
  then have "1 \<le> py_int (fmul (real 45864)
               (fdiv (of_int 1)
                  (fdiv (real 45864) (of_int (conv_sample_rate ex_converter_1s)))))"
    by simp
  from time_stretch_ok [OF h cur this, of zero_interp]
  obtain out where o: "time_stretch zero_interp ex_converter_1s ?p (of_int 1) = Inr out"
      "length out = length ?p" "\<forall>col\<in>set out. int (length col) = 44099"
    unfolding new by blast
  from o(2) obtain col where out: "out = [col]" by (cases out) auto
  with o(3) have "map length out = [44099]" by simp
  moreover have "convert_time_stretch zero_interp ex_converter_1s ?p = Inr out"
    using o(1) by (simp add: convert_time_stretch_def t)
  moreover have "round (45864 * 1 / (45864 / 44100) :: real) = 44100"
    by (simp add: round_def)
  ultimately show ?thesis by simp
qed

section \<open>Properties of the normalizer\<close>

lemma fold_max_abs_zero:
  "\<forall>x\<in>set xs. x = 0 \<Longrightarrow> fold (\<lambda>y m. max \<bar>y\<bar> m) xs (0::real) = 0"
  by (induction xs) simp_all

lemma np_max_abs_zero:
  assumes "xs \<noteq> []" "\<forall>x\<in>set xs. x = (0::real)"
  shows "np_max_abs xs = Inr 0"
proof (cases xs)
  case Nil
  with assms show ?thesis by simp
next
  case (Cons x rest)
  with assms have "x = 0" "\<forall>y\<in>set rest. y = 0" by simp_all
  with Cons show ?thesis by (simp add: np_max_abs_def fold_max_abs_zero)
qed

text \<open>
  Claim C4 (normalizer on an all-zero buffer), as the code has it. For an all-zero buffer
  with at least one sample the peak is zero and no division is performed, but the dither
  is added all the same: the output has the shape of the input and each of its samples is
  the sum of the two uniform draws for that sample.
\<close>

theorem normalizer_zero_input_is_dither:
  assumes ne: "concat p \<noteq> []" and zero: "\<forall>col\<in>set p. \<forall>x\<in>set col. x = 0"
  shows "\<exists>out. Normalizer_process dither_amp u1 u2 p = Inr out \<and> length out = length p \<and>
           (\<forall>c<length p. length (out ! c) = length (p ! c) \<and>
              (\<forall>i<length (p ! c). out ! c ! i = u1 c i + u2 c i))"
proof -
  have "\<forall>x\<in>set (concat p). x = 0" using zero by auto
  with ne have m: "np_max_abs (concat p) = Inr 0" by (rule np_max_abs_zero)
  let ?out = "map (\<lambda>(ch, col). map (\<lambda>(i, x). x + (u1 ch i + u2 ch i)) (enumerate 0 col))
                  (enumerate 0 p)"
  have r: "Normalizer_process dither_amp u1 u2 p = Inr ?out"
    by (simp add: Normalizer_process_def m)
  have col: "?out ! c = map (\<lambda>(i, x). x + (u1 c i + u2 c i)) (enumerate 0 (p ! c))"
    if "c < length p" for c
    using that by (simp add: nth_enumerate_eq)
  have "length (?out ! c) = length (p ! c) \<and>
        (\<forall>i<length (p ! c). ?out ! c ! i = u1 c i + u2 c i)" if c: "c < length p" for c
  proof (intro conjI allI impI)
    show "length (?out ! c) = length (p ! c)" by (simp add: col [OF c])
  next
    fix i assume i: "i < length (p ! c)"
    have "p ! c \<in> set p" using c by simp
    then have "p ! c ! i = 0" using zero i by auto
    then show "?out ! c ! i = u1 c i + u2 c i"
      using i by (simp add: col [OF c] nth_enumerate_eq)
  qed
  with r show ?thesis by auto
qed

theorem normalizer_zero_input_is_dither_witness:
  "concat [[0, 0 :: real]] \<noteq> [] \<and> list_all (list_all (\<lambda>x. x = 0)) [[0, 0 :: real]] \<and>
   Normalizer_process (1/100000) (\<lambda>ch i. 1/200000) (\<lambda>ch i. 0) [[0, 0]]
     = Inr [[1/200000, 1/200000]]"
proof -
  have h: "concat [[0, 0 :: real]] \<noteq> []" "\<forall>col\<in>set [[0, 0 :: real]]. \<forall>x\<in>set col. x = 0"
    by simp_all
  from normalizer_zero_input_is_dither [OF h, of "1/100000" "\<lambda>ch i. 1/200000" "\<lambda>ch i. 0"]
  obtain out where o: "Normalizer_process (1/100000) (\<lambda>ch i. 1/200000) (\<lambda>ch i. 0) [[0, 0]] = Inr out"
     "length out = 1" "length (out ! 0) = 2" "out ! 0 ! 0 = 1/200000" "out ! 0 ! 1 = 1/200000"
    by auto
  from o(2) obtain col where out: "out = [col]" by (cases out) auto
  with o(3) obtain a b where "col = [a, b]"
    by (cases col; cases "tl col") auto
  with o out have "out = [[1/200000, 1/200000]]" by simp
  with o(1) h show ?thesis by simp
qed

text \<open>
  Claim C4 as stated fails: with a dither amplitude of 0.00001 and the draws 0.000005 and
  0, the all-zero buffer of one sample comes back as 0.000005, not unchanged.
\<close>

theorem normalizer_adds_dither_to_silence:
  "Normalizer_process (1/100000) (\<lambda>ch i. 1/200000) (\<lambda>ch i. 0) [[0]] = Inr [[1/200000]] \<and>
   [[1/200000]] \<noteq> [[0 :: real]]"
  by (simp add: Normalizer_process_def np_max_abs_def enumerate_eq_zip)

section \<open>Properties of the reverb engine\<close>

lemma nth0_Nil [simp]: "nth0 [] k = 0"
  by (simp add: nth0_def)

lemma nth0_Cons_0 [simp]: "nth0 (x # xs) 0 = x"
  by (simp add: nth0_def)

lemma nth0_Cons_Suc [simp]: "nth0 (x # xs) (Suc k) = nth0 xs k"
  by (simp add: nth0_def)

lemma nth0_map_mult: "nth0 (map (\<lambda>c. x * c) h) k = x * nth0 h k"
  by (simp add: nth0_def)

lemma length_add_padded: "length (add_padded xs ys) = max (length xs) (length ys)"
  by (induction xs ys rule: add_padded.induct) simp_all

lemma nth0_add_padded: "nth0 (add_padded xs ys) k = nth0 xs k + nth0 ys k"
proof (induction xs ys arbitrary: k rule: add_padded.induct)
  case (1 ys)
  show ?case by simp
next
  case (2 x xs)
  show ?case by simp
next
  case (3 x xs y ys)
  then show ?case by (cases k) simp_all
qed

lemma length_fftconvolve:
  "length (fftconvolve xs h) = (if xs = [] \<or> h = [] then 0 else length xs + length h - 1)"
proof (induction xs)
  case Nil
  show ?case by simp
next
  case (Cons x xs)
  show ?case
  proof (cases "h = []")
    case True
    then show ?thesis by simp
  next
    case False
    then have h: "Suc 0 \<le> length h" by (cases h) simp_all
    with Cons False show ?thesis
      by (cases "xs = []") (auto simp: length_add_padded max_def)
  qed
qed

lemma nth0_fftconvolve:
  "nth0 (fftconvolve xs h) k = (\<Sum>j\<le>k. nth0 xs j * nth0 h (k - j))"
proof (induction xs arbitrary: k)
  case Nil
  show ?case by simp
next
  case (Cons x xs)
  show ?case
  proof (cases "h = []")
    case True
    then show ?thesis by simp
  next
    case False
    have l: "nth0 (fftconvolve (x # xs) h) k = x * nth0 h k + nth0 (0 # fftconvolve xs h) k"
      using False by (simp add: nth0_add_padded nth0_map_mult)
    show ?thesis
    proof (cases k)
      case 0
      with l show ?thesis by simp
    next
      case (Suc k')
      have "(\<Sum>j\<le>Suc k'. nth0 (x # xs) j * nth0 h (Suc k' - j)) =
            nth0 (x # xs) 0 * nth0 h (Suc k' - 0) +
            (\<Sum>j\<le>k'. nth0 (x # xs) (Suc j) * nth0 h (Suc k' - Suc j))"
        by (rule sum.atMost_Suc_shift)
      also have "\<dots> = x * nth0 h (Suc k') + (\<Sum>j\<le>k'. nth0 xs j * nth0 h (k' - j))"
        by simp
      also have "\<dots> = x * nth0 h (Suc k') + nth0 (fftconvolve xs h) k'"
        by (simp only: Cons.IH)
      finally show ?thesis using l Suc by simp
    qed
  qed
qed

lemma normalize_peak_nonempty:
  "normalize_peak xs = Inr ys \<Longrightarrow> ys \<noteq> []"
  by (cases xs) (auto simp: normalize_peak_def np_max_abs_def split: if_splits)

lemma reverb_ir_nonempty:
  assumes "reverb_ir randn sr delays ed td tlen = Inr ir"
  shows "ir \<noteq> []"
proof -
  from assms obtain early_ir tail_ir :: "real list" and a b :: nat
    where e: "early_ir \<noteq> []" and t: "tail_ir \<noteq> []"
      and ir: "ir = map2 (+) (early_ir @ replicate a 0) (tail_ir @ replicate b 0)"
    by (auto simp: reverb_ir_def Let_def split: sum.splits if_splits
             dest!: normalize_peak_nonempty)
  from e t obtain x xs y ys where "early_ir = x # xs" "tail_ir = y # ys"
    by (cases early_ir; cases tail_ir) auto
  with ir show ?thesis by simp
qed

lemma wet_length:
  assumes "ir \<noteq> []"
  shows "length (take (length col) (fftconvolve col ir)) = length col"
proof -
  from assms have "Suc 0 \<le> length ir" by (cases ir) simp_all
  then show ?thesis using assms by (cases "col = []") (simp_all add: length_fftconvolve)
qed

lemma wet_nth:
  assumes "ir \<noteq> []" "i < length col"
  shows "take (length col) (fftconvolve col ir) ! i = (\<Sum>j\<le>i. col ! j * nth0 ir (i - j))"
proof -
  from assms have "Suc 0 \<le> length ir" by (cases ir) simp_all
  then have "i < length (fftconvolve col ir)"
    using assms by (cases "col = []") (simp_all add: length_fftconvolve)
  then have "take (length col) (fftconvolve col ir) ! i = nth0 (fftconvolve col ir) i"
    using assms by (simp add: nth0_def)
  also have "\<dots> = (\<Sum>j\<le>i. nth0 col j * nth0 ir (i - j))"
    by (rule nth0_fftconvolve)
  also have "\<dots> = (\<Sum>j\<le>i. col ! j * nth0 ir (i - j))"
    using assms by (intro sum.cong) (simp_all add: nth0_def)
  finally show ?thesis .
qed

lemma wet_dry_mix_nth:
  assumes "length wet = length dry" "i < length dry"
  shows "wet_dry_mix wet_mix dry wet ! i = (1 - wet_mix) * dry ! i + wet_mix * wet ! i"
  using assms by (simp add: wet_dry_mix_def)

lemma wet_dry_mix_dry:
  assumes "length wet = length dry"
  shows "wet_dry_mix 0 dry wet = dry"
  using assms by (simp add: wet_dry_mix_def list_eq_iff_nth_eq)

lemma wet_dry_mix_wet:
  assumes "length wet = length dry"
  shows "wet_dry_mix 1 dry wet = wet"
  using assms by (simp add: wet_dry_mix_def list_eq_iff_nth_eq)

text \<open>
  Claim C5 (wet/dry mix of the reverb). Whenever the impulse response \<open>ir\<close> can be built,
  the reverb returns a buffer of the shape of its input in which sample \<open>i\<close> of each
  channel is \<open>(1 - wetMix) * dry\<^sub>i + wetMix * wet\<^sub>i\<close>, where \<open>wet\<^sub>i\<close> is the linear
  convolution sum of the channel with \<open>ir\<close> at \<open>i\<close>, that is the full convolution
  truncated to the length of the channel. With \<open>wetMix = 0\<close> the output is the input, with
  \<open>wetMix = 1\<close> it is the truncated convolution.
\<close>

theorem reverb_wet_dry_mix:
  assumes ir: "reverb_ir randn sr delays early_decay tail_decay tail_length_sec = Inr ir"
  shows "\<exists>out. apply_advanced_reverb randn p sr delays early_decay tail_decay tail_length_sec
                  wet_mix = Inr out \<and>
           length out = length p \<and>
           (\<forall>c<length p. length (out ! c) = length (p ! c) \<and>
              (\<forall>i<length (p ! c). out ! c ! i =
                 (1 - wet_mix) * p ! c ! i +
                 wet_mix * (\<Sum>j\<le>i. p ! c ! j * nth0 ir (i - j)))) \<and>
           (wet_mix = 0 \<longrightarrow> out = p) \<and>
           (wet_mix = 1 \<longrightarrow> out = map (\<lambda>col. take (length col) (fftconvolve col ir)) p)"
proof -
  have ne: "ir \<noteq> []" using ir by (rule reverb_ir_nonempty)
  let ?wet = "\<lambda>col. take (length col) (fftconvolve col ir)"
  let ?out = "map (\<lambda>col. wet_dry_mix wet_mix col (?wet col)) p"
  have r: "apply_advanced_reverb randn p sr delays early_decay tail_decay tail_length_sec
             wet_mix = Inr ?out"
    by (simp add: apply_advanced_reverb_def ir)
  have wl: "length (?wet col) = length col" for col
    using ne by (rule wet_length)
  have cols: "length (?out ! c) = length (p ! c) \<and>
              (\<forall>i<length (p ! c). ?out ! c ! i =
                 (1 - wet_mix) * p ! c ! i +
                 wet_mix * (\<Sum>j\<le>i. p ! c ! j * nth0 ir (i - j)))" if c: "c < length p" for c
  proof (intro conjI allI impI)
    show "length (?out ! c) = length (p ! c)"
      using c wl [of "p ! c"] by (simp add: wet_dry_mix_def)
  next
    fix i assume i: "i < length (p ! c)"
    have "?out ! c ! i = (1 - wet_mix) * p ! c ! i + wet_mix * ?wet (p ! c) ! i"
      using c wet_dry_mix_nth [OF wl i] by simp
    then show "?out ! c ! i = (1 - wet_mix) * p ! c ! i +
                 wet_mix * (\<Sum>j\<le>i. p ! c ! j * nth0 ir (i - j))"
      by (simp only: wet_nth [OF ne i])
  qed
  have dry: "?out = p" if "wet_mix = 0"
    using that wl by (simp add: wet_dry_mix_dry map_idI)
  have wet: "?out = map ?wet p" if "wet_mix = 1"
    using that wl by (simp add: wet_dry_mix_wet)
  from r cols dry wet show ?thesis by auto
qed

lemma ex_reverb_ir:
  "reverb_ir ex_randn 50 [20, 40, 60] (3/5) (199/200) (1/50) = Inr [2, 3/5, 3/5, 3/5]"
  by (simp add: reverb_ir_def py_max_def py_int_def set_item_def normalize_peak_def fmul_def
        np_max_abs_def linspace_def Let_def ex_randn_def enumerate_eq_zip eval_nat_numeral)

theorem reverb_wet_dry_mix_witness:
  "reverb_ir ex_randn 50 [20, 40, 60] (3/5) (199/200) (1/50) = Inr [2, 3/5, 3/5, 3/5] \<and>
   apply_advanced_reverb ex_randn [[1, 0, 0, 0]] 50 [20, 40, 60] (3/5) (199/200) (1/50) 0
     = Inr [[1, 0, 0, 0]]"
  using reverb_wet_dry_mix [OF ex_reverb_ir, of "[[1, 0, 0, 0]]" 0] ex_reverb_ir
  by auto

section \<open>Properties of the parametric EQ\<close>

lemma length_lfilter_from: "length (lfilter_from b a xh yh xs) = length xs"
  by (induction xs arbitrary: xh yh) (simp_all add: Let_def)

lemma lfilter_from_first:
  "lfilter_from (b0 # bs) (a0 # as) [] [] (x # xs) ! 0 = b0 * x / a0"
  by (simp add: Let_def)

lemma peak_gain_factor: "(1 / sqrt 2) / sqrt (1 - (1 / sqrt 2) ^ 2) = (1::real)"
proof -
  have "(1 / sqrt 2) ^ 2 = (1/2 :: real)" by (simp add: power_divide)
  then have "sqrt (1 - (1 / sqrt 2) ^ 2) = sqrt (1/2)" by simp
  also have "\<dots> = 1 / sqrt 2" by (simp add: real_sqrt_divide)
  finally show ?thesis by simp
qed

lemma iirpeak_ok:
  assumes "0 \<le> w0" "w0 \<le> 1" "Q \<noteq> 0"
  shows "iirpeak w0 Q =
           Inr ([1 - 1 / (1 + tan (w0 / Q * pi / 2)), 0, - (1 - 1 / (1 + tan (w0 / Q * pi / 2)))],
                [1, - 2 * (1 / (1 + tan (w0 / Q * pi / 2))) * cos (w0 * pi),
                 2 * (1 / (1 + tan (w0 / Q * pi / 2))) - 1])"
proof -
  have c: "(w0 > 1 \<or> w0 < 0) = False" "(Q = 0) = False" using assms by auto
  show ?thesis
    unfolding iirpeak_def Let_def peak_gain_factor c if_False
    by (simp only: list.map mult_1 mult_1_right mult_zero_right mult_minus_right)
qed

lemma peak_gain_range:
  assumes "0 < w0" "w0 < 1" "1 \<le> Q"
  shows "0 < 1 / (1 + tan (w0 / Q * pi / 2))" "1 / (1 + tan (w0 / Q * pi / 2)) < 1"
proof -
  have q: "0 < w0 / Q" using assms by simp
  have "w0 / Q < 1" using assms by (simp add: field_simps)
  then have "w0 / Q * pi < 1 * pi" using pi_gt_zero by (rule mult_strict_right_mono)
  then have hi: "w0 / Q * pi / 2 < pi / 2" by simp
  have "0 < w0 / Q * pi" using q pi_gt_zero by (rule mult_pos_pos)
  then have lo: "0 < w0 / Q * pi / 2" by (rule half_gt_zero)
  from lo hi have t: "0 < tan (w0 / Q * pi / 2)" by (rule tan_gt_zero)
  then show "0 < 1 / (1 + tan (w0 / Q * pi / 2))" by simp
  from t show "1 / (1 + tan (w0 / Q * pi / 2)) < 1" by (simp add: field_simps)
qed

lemma eq_band_zero_gain:
  assumes sr: "0 < sr" and g0: "dict_get bnd ''gain_db'' 0 = 0"
      and f0: "0 < dict_get bnd ''center_freq'' 1000"
      and f1: "dict_get bnd ''center_freq'' 1000 < of_int sr / 2"
      and Q: "1 \<le> dict_get bnd ''Q'' 1"
      and ne: "p \<noteq> []"
  shows "\<exists>out. eq_band sr bnd p = Inr out \<and> length out = length p \<and>
           (\<forall>c<length p. length (out ! c) = length (p ! c) \<and>
              (p ! c \<noteq> [] \<longrightarrow> out ! c ! 0 =
                 (1 - 1 / (1 + tan (dict_get bnd ''center_freq'' 1000 / (of_int sr / 2) /
                                     dict_get bnd ''Q'' 1 * pi / 2))) * p ! c ! 0))"
proof -
  let ?f = "dict_get bnd ''center_freq'' 1000" and ?Q = "dict_get bnd ''Q'' 1"
  let ?w0 = "?f / (of_int sr / 2)"
  let ?g = "1 / (1 + tan (?w0 / ?Q * pi / 2))"
  let ?b = "[1 - ?g, 0, - (1 - ?g)]"
  let ?a = "[1, - 2 * ?g * cos (?w0 * pi), 2 * ?g - 1]"
  have w: "0 \<le> ?w0" "?w0 \<le> 1" "?Q \<noteq> 0"
    using sr f0 f1 Q by (simp_all add: field_simps)
  have ib: "iirpeak ?w0 ?Q = Inr (?b, ?a)" by (rule iirpeak_ok [OF w])
  have c: "(sr = 0) = False" "(p = []) = False" using sr ne by simp_all
  have bs: "map (\<lambda>c. c * 10 powr (0 / 20)) ?b = ?b" by simp
  have lf: "lfilter ?b ?a col = Inr (lfilter_from ?b ?a [] [] col)" for col
    by (simp add: lfilter_def)
  have "eq_band sr bnd p = collect (map (lfilter ?b ?a) p)"
    unfolding eq_band_def Let_def g0 ib c if_False sum.case prod.case bs ..
  also have "\<dots> = Inr (map (lfilter_from ?b ?a [] []) p)"
    by (rule collect_map_Inr) (rule lf)
  finally have r: "eq_band sr bnd p = Inr (map (lfilter_from ?b ?a [] []) p)" .
  have "p ! c \<noteq> [] \<longrightarrow> lfilter_from ?b ?a [] [] (p ! c) ! 0 = (1 - ?g) * p ! c ! 0" for c
  proof
    assume "p ! c \<noteq> []"
    then obtain x xs where x: "p ! c = x # xs" by (cases "p ! c") auto
    show "lfilter_from ?b ?a [] [] (p ! c) ! 0 = (1 - ?g) * p ! c ! 0"
      unfolding x lfilter_from_first by simp
  qed
  with r show ?thesis by (simp add: length_lfilter_from)
qed

lemma ex_band_fields:
  "dict_get ex_band ''gain_db'' 0 = 0" "dict_get ex_band ''center_freq'' 1000 = 1000"
  "dict_get ex_band ''Q'' 1 = 1"
  by (simp_all add: ex_band_def dict_get_def)

text \<open>
  What a band of 0 dB does. Its gain factor is exactly one, so the band applies the
  unscaled resonator of \<^verbatim>\<open>iirpeak\<close>: for a centre frequency strictly between zero and
  half the (positive) sample rate, \<open>Q \<ge> 1\<close> and a buffer with at least one channel, the
  output has the shape of the input, and
  the first sample of every channel is the first input sample multiplied by \<open>1 - g\<close>,
  where \<open>g = 1 / (1 + tan (\<pi> * (centerFreqHz / (sampleRate / 2)) / (2 * Q)))\<close> lies
  strictly between zero and one.
\<close>

lemma eq_zero_gain_first_sample:
  assumes sr: "0 < sr" and g0: "dict_get bnd ''gain_db'' 0 = 0"
      and f0: "0 < dict_get bnd ''center_freq'' 1000"
      and f1: "dict_get bnd ''center_freq'' 1000 < of_int sr / 2"
      and Q: "1 \<le> dict_get bnd ''Q'' 1"
      and ne: "p \<noteq> []"
  shows "0 < 1 / (1 + tan (dict_get bnd ''center_freq'' 1000 / (of_int sr / 2) /
                            dict_get bnd ''Q'' 1 * pi / 2)) \<and>
         1 / (1 + tan (dict_get bnd ''center_freq'' 1000 / (of_int sr / 2) /
                        dict_get bnd ''Q'' 1 * pi / 2)) < 1 \<and>
         (\<exists>out. apply_advanced_eq p sr (Some [bnd]) = Inr out \<and> length out = length p \<and>
            (\<forall>c<length p. length (out ! c) = length (p ! c) \<and>
               (p ! c \<noteq> [] \<longrightarrow> out ! c ! 0 =
                  (1 - 1 / (1 + tan (dict_get bnd ''center_freq'' 1000 / (of_int sr / 2) /
                                      dict_get bnd ''Q'' 1 * pi / 2))) * p ! c ! 0)))"
proof -
  let ?w0 = "dict_get bnd ''center_freq'' 1000 / (of_int sr / 2)"
  have w: "0 < ?w0" "?w0 < 1" using sr f0 f1 by (simp_all add: field_simps)
  from eq_band_zero_gain [OF sr g0 f0 f1 Q ne]
  obtain out where "eq_band sr bnd p = Inr out" and rest: "length out = length p"
     "\<forall>c<length p. length (out ! c) = length (p ! c) \<and>
        (p ! c \<noteq> [] \<longrightarrow> out ! c ! 0 =
           (1 - 1 / (1 + tan (?w0 / dict_get bnd ''Q'' 1 * pi / 2))) * p ! c ! 0)"
    by blast
  then have "apply_advanced_eq p sr (Some [bnd]) = Inr out"
    by (simp add: apply_advanced_eq_def)
  with rest peak_gain_range [OF w Q] show ?thesis by blast
qed

text \<open>
  Claim C3 (a band with \<open>gainDb = 0\<close> is an identity pass). The code does not have the
  property: a buffer holding the single sample \<open>1\<close>, at 44100 Hz, does not come back
  unchanged from a band of 0 dB at 1000 Hz with \<open>Q = 1\<close>; by the lemma above its sample
  is scaled by \<open>1 - g\<close>.
\<close>

theorem eq_zero_gain_not_identity:
  "apply_advanced_eq [[1]] 44100 (Some [ex_band]) \<noteq> Inr [[1]]"
proof
  assume a: "apply_advanced_eq [[1]] 44100 (Some [ex_band]) = Inr [[1]]"
  have h: "(0::int) < 44100" "dict_get ex_band ''gain_db'' 0 = 0"
      "0 < dict_get ex_band ''center_freq'' 1000"
      "dict_get ex_band ''center_freq'' 1000 < of_int 44100 / 2"
      "1 \<le> dict_get ex_band ''Q'' 1"
    by (simp_all add: ex_band_fields)
  let ?w0 = "dict_get ex_band ''center_freq'' 1000 / (of_int 44100 / 2)"
  let ?g = "1 / (1 + tan (?w0 / dict_get ex_band ''Q'' 1 * pi / 2))"
  have w: "0 < ?w0" "?w0 < 1" by (simp_all add: ex_band_fields)
  have "[[1::real]] \<noteq> []" by simp
  from eq_band_zero_gain [OF h this]
  obtain out where o: "eq_band 44100 ex_band [[1]] = Inr out" "out ! 0 ! 0 = (1 - ?g) * 1"
    by auto
  from o(1) a have "out = [[1]]" by (simp add: apply_advanced_eq_def)
  with o(2) have "?g = 0" by simp
  with peak_gain_range(1) [OF w h(5)] show False by simp
qed

end
